theory Spec2Isabelle
  imports Complex_Main
begin

section \<open>Live wallpaper player: a shallow embedding of \<^verbatim>\<open>app.py\<close>\<close>

text \<open>
  The rendering core of the program is \<^verbatim>\<open>VideoPlayerThread.run\<close> together with the
  helpers \<^verbatim>\<open>get_monitors\<close>, \<^verbatim>\<open>find_workerw\<close> and \<^verbatim>\<open>create_bmi_header\<close>.
  Everything the thread does to the operating system is recorded in a trace of events;
  everything the operating system answers is read from a \<open>world\<close> record.
\<close>

subsection \<open>Python exceptions\<close>

text \<open>
  The calls into the window system, each of which may raise: those of the start-up
  sequence, and the four release calls of the \<^verbatim>\<open>finally\<close> block
  (\<^verbatim>\<open>save_dc.DeleteDC()\<close>, \<^verbatim>\<open>mfc_dc.DeleteDC()\<close>, \<^verbatim>\<open>win32gui.ReleaseDC\<close> and
  \<^verbatim>\<open>win32gui.DeleteObject\<close>).
\<close>

datatype api =
    FindWindow | SendMessageTimeout | EnumWindows
  | GetWindowDC | CreateDCFromHandle | CreateCompatibleDC
  | CreateBitmap | CreateCompatibleBitmap | SelectObject
  | SaveDC_DeleteDC | MfcDC_DeleteDC | ReleaseDC | DeleteObject

datatype exn =
    OSError api
  | ValueError
  | KeyError string
  | ZeroDivisionError
  | UnboundLocalError string

subsection \<open>Monitors\<close>

text \<open>One display as \<^verbatim>\<open>EnumDisplayMonitors\<close> hands it to the callback.\<close>

record display =
  hMonitor :: nat
  rect_left :: int
  rect_top :: int
  rect_right :: int
  rect_bottom :: int
  Flags :: "nat option"
  Device :: "string option"

text \<open>The dictionary \<^verbatim>\<open>get_monitors\<close> builds for one display.\<close>

record monitor =
  handle :: nat
  mon_x :: int
  mon_y :: int
  mon_width :: int
  mon_height :: int
  is_primary :: bool
  device :: string

definition callback_monitor :: "display \<Rightarrow> monitor" where
  "callback_monitor d =
     \<lparr> handle = hMonitor d,
       mon_x = rect_left d,
       mon_y = rect_top d,
       mon_width = rect_right d - rect_left d,
       mon_height = rect_bottom d - rect_top d,
       is_primary = (Flags d = Some 1),
       device = (case Device d of None \<Rightarrow> ''Unknown'' | Some s \<Rightarrow> s) \<rparr>"

definition get_monitors :: "display list \<Rightarrow> monitor list" where
  "get_monitors ds = map callback_monitor ds"

subsection \<open>The bounding box of the virtual desktop\<close>

text \<open>
  Python's \<^verbatim>\<open>min\<close> and \<^verbatim>\<open>max\<close> over a generator: the running
  minimum from the first element on, and \<^verbatim>\<open>ValueError\<close> on an empty sequence.
\<close>

definition py_min :: "int list \<Rightarrow> exn + int" where
  "py_min xs = (case xs of [] \<Rightarrow> Inl ValueError | y # ys \<Rightarrow> Inr (fold min ys y))"

definition py_max :: "int list \<Rightarrow> exn + int" where
  "py_max xs = (case xs of [] \<Rightarrow> Inl ValueError | y # ys \<Rightarrow> Inr (fold max ys y))"

record bbox =
  min_x :: int
  min_y :: int
  total_width :: int
  total_height :: int

text \<open>Lines 103 to 106 of \<^verbatim>\<open>run\<close>, in the order of the source.\<close>

definition bounding_box :: "monitor list \<Rightarrow> exn + bbox" where
  "bounding_box monitors =
     (case py_min (map mon_x monitors) of
        Inl e \<Rightarrow> Inl e
      | Inr mx \<Rightarrow>
     (case py_min (map mon_y monitors) of
        Inl e \<Rightarrow> Inl e
      | Inr my \<Rightarrow>
     (case py_max (map (\<lambda>m. mon_x m + mon_width m - mx) monitors) of
        Inl e \<Rightarrow> Inl e
      | Inr tw \<Rightarrow>
     (case py_max (map (\<lambda>m. mon_y m + mon_height m - my) monitors) of
        Inl e \<Rightarrow> Inl e
      | Inr th \<Rightarrow>
          Inr \<lparr> min_x = mx, min_y = my, total_width = tw, total_height = th \<rparr>))))"


subsection \<open>The desktop surface locator\<close>

text \<open>
  A top-level window: its handle, its class name and the class names of its children.
  The list of windows of the world is in z-order, the order of \<^verbatim>\<open>EnumWindows\<close>.
\<close>

record window =
  hwnd :: nat
  class_name :: string
  children :: "string list"

text \<open>
  \<^verbatim>\<open>FindWindowEx(0, after, cls, None)\<close>: the first top-level window of class
  \<open>cls\<close> behind the window \<open>after\<close>, and the null handle 0 when there is none.
\<close>

definition FindWindowEx :: "window list \<Rightarrow> nat \<Rightarrow> string \<Rightarrow> nat" where
  "FindWindowEx ws after cls =
     (case filter (\<lambda>v. class_name v = cls) (drop 1 (dropWhile (\<lambda>v. hwnd v \<noteq> after) ws)) of
        [] \<Rightarrow> 0
      | v # _ \<Rightarrow> hwnd v)"

text \<open>The callback of \<^verbatim>\<open>find_workerw\<close>, lines 44 to 50.\<close>

definition callback_window :: "window list \<Rightarrow> window \<Rightarrow> nat list \<Rightarrow> nat list" where
  "callback_window ws v hwnds =
     (if class_name v = ''WorkerW'' \<and> ''SHELLDLL_DefView'' \<in> set (children v)
      then hwnds @ [FindWindowEx ws (hwnd v) ''WorkerW'']
      else hwnds)"

subsection \<open>Pixels, frames and the decoder\<close>

type_synonym bgr = "nat \<times> nat \<times> nat"
type_synonym bgra = "nat \<times> nat \<times> nat \<times> nat"

text \<open>A decoded frame is its pixel data, row by row.\<close>

type_synonym frame = "bgr list"

text \<open>\<^verbatim>\<open>cv2.cvtColor(frame, cv2.COLOR_BGR2BGRA)\<close> adds an opaque alpha channel.\<close>

definition cvtColor :: "frame \<Rightarrow> bgra list" where
  "cvtColor f = map (\<lambda>(b, g, r). (b, g, r, 255)) f"

text \<open>
  The decoder behind \<^verbatim>\<open>cv2.VideoCapture\<close> is not part of the program. It is taken
  as a sequential reader over the frames of the file: \<^verbatim>\<open>read\<close> hands out the frame
  at the current position and advances, and fails at the end of the stream;
  \<^verbatim>\<open>set(CAP_PROP_POS_FRAMES, n)\<close> moves the position. A read can also fail
  before the end of the stream (a frame that does not decode, a file that has gone
  away): \<open>faults\<close> tells of the coming reads, in their order, which of them fail
  so, and \<open>faulty\<close> whether the next one does.
\<close>

record capture =
  frames :: "frame list"
  pos :: nat
  frame_width :: nat
  frame_height :: nat
  native_fps :: rat
  faults :: "bool list"

definition faulty :: "capture \<Rightarrow> bool" where
  "faulty c = (case faults c of [] \<Rightarrow> False | b # bs \<Rightarrow> b)"

definition cap_read :: "capture \<Rightarrow> frame option \<times> capture" where
  "cap_read c =
     (let c' = c\<lparr>faults := tl (faults c)\<rparr> in
      if \<not> faulty c \<and> pos c < length (frames c)
      then (Some (frames c ! pos c), c'\<lparr>pos := Suc (pos c)\<rparr>)
      else (None, c'))"

definition cap_set_pos_frames :: "capture \<Rightarrow> nat \<Rightarrow> capture" where
  "cap_set_pos_frames c n = c\<lparr>pos := n\<rparr>"

subsection \<open>Drawing surfaces\<close>

text \<open>
  A surface gives the colour of every pixel position. Of the composition bitmap only
  the positions inside \<open>(0, 0, total_width, total_height)\<close> exist; the present copies
  exactly those.
\<close>

type_synonym surface = "int \<times> int \<Rightarrow> bgra"

definition black :: bgra where
  "black = (0, 0, 0, 0)"

text \<open>\<^verbatim>\<open>FillSolidRect((left, top, right, bottom), colour)\<close>.\<close>

definition FillSolidRect :: "int \<times> int \<times> int \<times> int \<Rightarrow> bgra \<Rightarrow> surface \<Rightarrow> surface" where
  "FillSolidRect rect colour s =
     (case rect of (l, t, r, b) \<Rightarrow>
        (\<lambda>(px, py). if l \<le> px \<and> px < r \<and> t \<le> py \<and> py < b then colour else s (px, py)))"

text \<open>
  \<^verbatim>\<open>StretchDIBits\<close> writes the destination rectangle and nothing else. How the
  window system resamples the source image to the destination size depends on its
  stretch mode, so the resampling is a parameter: \<open>resample bits src_w src_h dst_w dst_h\<close>
  is the stretched image, addressed relative to the destination's corner.
\<close>

type_synonym resampler = "bgra list \<Rightarrow> int \<Rightarrow> int \<Rightarrow> int \<Rightarrow> int \<Rightarrow> int \<times> int \<Rightarrow> bgra"

definition StretchDIBits ::
  "resampler \<Rightarrow> int \<Rightarrow> int \<Rightarrow> int \<Rightarrow> int \<Rightarrow> int \<Rightarrow> int \<Rightarrow> bgra list \<Rightarrow> surface \<Rightarrow> surface" where
  "StretchDIBits resample x_dest y_dest dest_w dest_h src_w src_h bits s =
     (\<lambda>(px, py).
        if x_dest \<le> px \<and> px < x_dest + dest_w \<and> y_dest \<le> py \<and> py < y_dest + dest_h
        then resample bits src_w src_h dest_w dest_h (px - x_dest, py - y_dest)
        else s (px, py))"

text \<open>\<^verbatim>\<open>BitBlt((0, 0), (w, h), src, (0, 0), SRCCOPY)\<close> onto the target.\<close>

definition BitBlt :: "int \<Rightarrow> int \<Rightarrow> surface \<Rightarrow> surface \<Rightarrow> surface" where
  "BitBlt w h src target =
     (\<lambda>(px, py). if 0 \<le> px \<and> px < w \<and> 0 \<le> py \<and> py < h then src (px, py) else target (px, py))"

text \<open>The fields \<^verbatim>\<open>create_bmi_header\<close> packs, in the order of the format string.\<close>

definition create_bmi_header :: "int \<Rightarrow> int \<Rightarrow> int list" where
  "create_bmi_header width height =
     [40, width, - height, 1, 32, 0, width * height * 4, 0, 0, 0, 0]"

subsection \<open>The world the thread runs in\<close>

text \<open>
  \<open>fails\<close> says which window-system calls raise; \<open>window_dc\<close> is the handle
  \<^verbatim>\<open>GetWindowDC\<close> returns (0 is the null handle); \<open>VideoCapture\<close> is the capture a
  path opens, \<open>None\<close> when \<^verbatim>\<open>isOpened()\<close> is false; \<open>BitBlt_raises k\<close> says whether
  the present of tick \<open>k\<close> raises; \<open>second_elapsed k\<close> says whether, in tick \<open>k\<close>, the
  clock is a second past the last rate report.
\<close>

record world =
  windows :: "window list"
  displays :: "display list"
  fails :: "api \<Rightarrow> bool"
  window_dc :: nat
  VideoCapture :: "string \<Rightarrow> capture option"
  stretch :: resampler
  BitBlt_raises :: "nat \<Rightarrow> bool"
  second_elapsed :: "nat \<Rightarrow> bool"
  bitmap0 :: surface
  desktop0 :: surface

text \<open>\<^verbatim>\<open>find_workerw\<close>, lines 52 to 56.\<close>

definition find_workerw :: "world \<Rightarrow> exn + nat option" where
  "find_workerw w =
     (if fails w FindWindow then Inl (OSError FindWindow)
      else if fails w SendMessageTimeout then Inl (OSError SendMessageTimeout)
      else if fails w EnumWindows then Inl (OSError EnumWindows)
      else (case fold (callback_window (windows w)) (windows w) [] of
              [] \<Rightarrow> Inr None
            | h # _ \<Rightarrow> Inr (Some h)))"

subsection \<open>Configuration, events and the state of the thread\<close>

text \<open>
  One value of \<^verbatim>\<open>monitor_config\<close>; \<open>None\<close> is an absent key. The dictionary itself
  is the list of its items in iteration order.
\<close>

record config =
  video_path :: "string option"
  monitor_info :: "monitor option"
  fps :: "rat option"

text \<open>One value of \<^verbatim>\<open>caps\<close>.\<close>

record source =
  cap :: capture
  info :: monitor
  data_fps :: rat

datatype resource = WindowDC | MfcDC | SaveDC | Bitmap

datatype message = Text string | Str exn

datatype event =
    ErrorOccurred message
  | FpsUpdated rat
  | Acquire resource
  | Release resource
  | Open string string bool
  | ReleaseCap string
  | Clear int int int int
  | Read string bool
  | Seek string nat
  | Blit string int int int int int int "bgra list" "int list"
  | Present int int bool
  | Print
  | WaitKey int

text \<open>
  The local variables of \<^verbatim>\<open>run\<close>, the pixels of the composition bitmap and of the
  worker window, and the trace so far. \<open>bmp = Some False\<close> is the bitmap object before
  \<^verbatim>\<open>CreateCompatibleBitmap\<close> has given it a handle, \<open>bmp = Some True\<close> the object
  with its handle. \<open>box\<close> holds \<^verbatim>\<open>min_x\<close>,
  \<^verbatim>\<open>min_y\<close>, \<^verbatim>\<open>total_width\<close> and \<^verbatim>\<open>total_height\<close>, which are read only after they
  are assigned.
\<close>

record state =
  caps :: "(string \<times> source) list"
  save_dc :: "unit option"
  mfc_dc :: "unit option"
  hwnd_dc :: "nat option"
  bmp :: "bool option"
  worker_w :: "nat option"
  box :: bbox
  fps_var :: "rat option"
  surface :: surface
  desktop :: surface
  trace :: "event list"

definition init :: "world \<Rightarrow> state" where
  "init w =
     \<lparr> caps = [], save_dc = None, mfc_dc = None, hwnd_dc = None, bmp = None,
       worker_w = None,
       box = \<lparr> min_x = 0, min_y = 0, total_width = 0, total_height = 0 \<rparr>,
       fps_var = None, surface = bitmap0 w, desktop = desktop0 w, trace = [] \<rparr>"

definition emit :: "event \<Rightarrow> state \<Rightarrow> state" where
  "emit e st = st\<lparr>trace := trace st @ [e]\<rparr>"

text \<open>Truth value of a handle that may be \<^verbatim>\<open>None\<close> or 0.\<close>

definition truthy :: "nat option \<Rightarrow> bool" where
  "truthy h = (case h of None \<Rightarrow> False | Some v \<Rightarrow> v \<noteq> 0)"

text \<open>
  How a block of statements ends: it runs through, it executes \<^verbatim>\<open>return\<close>, or it
  raises. The state is the one reached at that point.
\<close>

datatype outcome = Normal | Returned | Raised exn

type_synonym step = "state \<Rightarrow> outcome \<times> state"

definition seq :: "step \<Rightarrow> step \<Rightarrow> step" where
  "seq f g st = (case f st of (Normal, st') \<Rightarrow> g st' | (Returned, st') \<Rightarrow> (Returned, st')
                 | (Raised e, st') \<Rightarrow> (Raised e, st'))"


subsection \<open>Start-up of \<^verbatim>\<open>run\<close>\<close>

text \<open>Lines 93 to 96: locate the worker window, or report and return.\<close>

definition locate :: "world \<Rightarrow> step" where
  "locate w st =
     (case find_workerw w of
        Inl e \<Rightarrow> (Raised e, st)
      | Inr r \<Rightarrow>
          if \<not> truthy r
          then (Returned,
                emit (ErrorOccurred (Text ''Could not find WorkerW window'')) (st\<lparr>worker_w := r\<rparr>))
          else (Normal, st\<lparr>worker_w := r\<rparr>))"

text \<open>
  Lines 98 to 100. A window device context is acquired when \<^verbatim>\<open>GetWindowDC\<close> returns
  a handle other than null.
\<close>

definition get_window_dc :: "world \<Rightarrow> step" where
  "get_window_dc w st =
     (if fails w GetWindowDC then (Raised (OSError GetWindowDC), st)
      else (Normal,
            (if window_dc w \<noteq> 0 then emit (Acquire WindowDC) else id)
              (st\<lparr>hwnd_dc := Some (window_dc w)\<rparr>)))"

definition create_dc_from_handle :: "world \<Rightarrow> step" where
  "create_dc_from_handle w st =
     (if fails w CreateDCFromHandle then (Raised (OSError CreateDCFromHandle), st)
      else (Normal, emit (Acquire MfcDC) (st\<lparr>mfc_dc := Some ()\<rparr>)))"

definition create_compatible_dc :: "world \<Rightarrow> step" where
  "create_compatible_dc w st =
     (if fails w CreateCompatibleDC then (Raised (OSError CreateCompatibleDC), st)
      else (Normal, emit (Acquire SaveDC) (st\<lparr>save_dc := Some ()\<rparr>)))"

text \<open>Lines 102 to 106.\<close>

definition compute_box :: "world \<Rightarrow> step" where
  "compute_box w st =
     (case bounding_box (get_monitors (displays w)) of
        Inl e \<Rightarrow> (Raised e, st)
      | Inr b \<Rightarrow> (Normal, st\<lparr>box := b\<rparr>))"

text \<open>Lines 108 to 110.\<close>

definition create_bitmap :: "world \<Rightarrow> step" where
  "create_bitmap w st =
     (if fails w CreateBitmap then (Raised (OSError CreateBitmap), st)
      else if fails w CreateCompatibleBitmap
      then (Raised (OSError CreateCompatibleBitmap), st\<lparr>bmp := Some False\<rparr>)
      else if fails w SelectObject
      then (Raised (OSError SelectObject), emit (Acquire Bitmap) (st\<lparr>bmp := Some True\<rparr>))
      else (Normal, emit (Acquire Bitmap) (st\<lparr>bmp := Some True, surface := bitmap0 w\<rparr>)))"

text \<open>
  \<^verbatim>\<open>caps[monitor_id] = data\<close>: a key already present keeps its place and gets the
  new value, a new key goes to the end.
\<close>

fun dict_set :: "(string \<times> 'v) list \<Rightarrow> string \<Rightarrow> 'v \<Rightarrow> (string \<times> 'v) list" where
  "dict_set [] k v = [(k, v)]"
| "dict_set ((k', v') # kvs) k v =
     (if k' = k then (k, v) # kvs else (k', v') # dict_set kvs k v)"

text \<open>Lines 112 to 125, one item of \<^verbatim>\<open>monitor_config\<close> after the other.\<close>

fun open_sources :: "world \<Rightarrow> (string \<times> config) list \<Rightarrow> step" where
  "open_sources w [] st = (Normal, st)"
| "open_sources w ((monitor_id, cfg) # rest) st =
     (case video_path cfg of
        None \<Rightarrow> open_sources w rest st
      | Some path \<Rightarrow>
          if path = [] then open_sources w rest st
          else (case VideoCapture w path of
                  None \<Rightarrow>
                    open_sources w rest
                      (emit (ErrorOccurred (Text (''Could not open video: '' @ path)))
                         (emit (Open monitor_id path False) st))
                | Some c \<Rightarrow>
                    (case monitor_info cfg of
                       None \<Rightarrow> (Raised (KeyError ''monitor_info''), emit (Open monitor_id path True) st)
                     | Some m \<Rightarrow>
                         open_sources w rest
                           (emit (FpsUpdated (native_fps c))
                              ((emit (Open monitor_id path True) st)
                                 \<lparr> caps := dict_set (caps st) monitor_id
                                     \<lparr> cap = c, info = m,
                                       data_fps = (case fps cfg of None \<Rightarrow> 30 | Some f \<Rightarrow> f) \<rparr>,
                                   fps_var := Some (native_fps c) \<rparr>)))))"

subsection \<open>One tick\<close>

text \<open>Lines 143 to 157: convert the frame and stretch it onto the monitor's rectangle.\<close>

definition blit :: "world \<Rightarrow> string \<Rightarrow> source \<Rightarrow> capture \<Rightarrow> frame \<Rightarrow> state \<Rightarrow> state" where
  "blit w monitor_id data c frm st =
     (let bits = cvtColor frm;
          video_width = int (frame_width c);
          video_height = int (frame_height c);
          monitor = info data;
          x_dest = mon_x monitor - min_x (box st);
          y_dest = mon_y monitor - min_y (box st)
      in emit (Blit monitor_id x_dest y_dest (mon_width monitor) (mon_height monitor)
                 video_width video_height bits (create_bmi_header video_width video_height))
           (st\<lparr>surface := StretchDIBits (stretch w) x_dest y_dest
                             (mon_width monitor) (mon_height monitor)
                             video_width video_height bits (surface st)\<rparr>))"

text \<open>
  Lines 132 to 157, the body of the loop over \<^verbatim>\<open>caps.items()\<close> for one source. The
  result is the capture after its reads, and the state.
\<close>

definition draw_source :: "world \<Rightarrow> string \<Rightarrow> source \<Rightarrow> state \<Rightarrow> capture \<times> state" where
  "draw_source w monitor_id data st =
     (let st1 = st\<lparr>fps_var := Some (data_fps data)\<rparr> in
      case cap_read (cap data) of
        (Some frm, c1) \<Rightarrow> (c1, blit w monitor_id data c1 frm (emit (Read monitor_id True) st1))
      | (None, c1) \<Rightarrow>
          (let c2 = cap_set_pos_frames c1 0;
               st2 = emit (Seek monitor_id 0) (emit (Read monitor_id False) st1)
           in case cap_read c2 of
                (None, c3) \<Rightarrow> (c3, emit (Read monitor_id False) st2)
              | (Some frm, c3) \<Rightarrow>
                  (c3, blit w monitor_id data c3 frm (emit (Read monitor_id True) st2))))"

fun draw_sources ::
  "world \<Rightarrow> (string \<times> source) list \<Rightarrow> state \<Rightarrow> (string \<times> source) list \<times> state" where
  "draw_sources w [] st = ([], st)"
| "draw_sources w ((monitor_id, data) # rest) st =
     (case draw_source w monitor_id data st of
        (c, st1) \<Rightarrow>
          (case draw_sources w rest st1 of
             (rest', st2) \<Rightarrow> ((monitor_id, data\<lparr>cap := c\<rparr>) # rest', st2)))"

text \<open>\<^verbatim>\<open>int(x)\<close> of a number: truncation towards zero.\<close>

definition py_int :: "rat \<Rightarrow> int" where
  "py_int q = (if 0 \<le> q then \<lfloor>q\<rfloor> else \<lceil>q\<rceil>)"

text \<open>Lines 159 to 168: the present, whose failure is printed and otherwise ignored.\<close>

definition present :: "world \<Rightarrow> nat \<Rightarrow> state \<Rightarrow> state" where
  "present w k st =
     (if BitBlt_raises w k
      then emit Print (emit (Present (total_width (box st)) (total_height (box st)) False) st)
      else emit (Present (total_width (box st)) (total_height (box st)) True)
             (st\<lparr>desktop := BitBlt (total_width (box st)) (total_height (box st))
                               (surface st) (desktop st)\<rparr>))"

text \<open>Lines 170 to 175: the rate report and the pacing call.\<close>

definition pace :: "world \<Rightarrow> nat \<Rightarrow> step" where
  "pace w k st =
     (case fps_var st of
        None \<Rightarrow> (Raised (UnboundLocalError ''fps''), st)
      | Some f \<Rightarrow>
          (let st1 = (if second_elapsed w k then emit (FpsUpdated f) st else st)
           in if f = 0 then (Raised ZeroDivisionError, st1)
              else (Normal, emit (WaitKey (py_int (1000 / f))) st1)))"

text \<open>Lines 129 to 175: tick number \<open>k\<close> of the session.\<close>

definition clear :: "state \<Rightarrow> state" where
  "clear st =
     emit (Clear 0 0 (total_width (box st)) (total_height (box st)))
       (st\<lparr>surface := FillSolidRect (0, 0, total_width (box st), total_height (box st)) black
                         (surface st)\<rparr>)"

definition draw :: "world \<Rightarrow> state \<Rightarrow> state" where
  "draw w st = (case draw_sources w (caps st) st of (caps', st') \<Rightarrow> st'\<lparr>caps := caps'\<rparr>)"

definition tick :: "world \<Rightarrow> nat \<Rightarrow> step" where
  "tick w k st = pace w k (present w k (draw w (clear st)))"

subsection \<open>The loop and the whole of \<^verbatim>\<open>run\<close>\<close>

text \<open>
  \<^verbatim>\<open>while self.running and caps\<close>. The flag \<^verbatim>\<open>running\<close> is true from the
  construction of the thread until \<^verbatim>\<open>stop\<close> clears it, and nothing sets it again:
  the loop reads it as true some number \<open>n\<close> of times and as false from then on. That
  number is the second argument; the first is the number of the next tick.
\<close>

fun playback_loop :: "world \<Rightarrow> nat \<Rightarrow> nat \<Rightarrow> step" where
  "playback_loop w k 0 st = (Normal, st)"
| "playback_loop w k (Suc n) st =
     (if caps st = [] then (Normal, st)
      else (case tick w k st of
              (Normal, st') \<Rightarrow> playback_loop w (Suc k) n st'
            | (Returned, st') \<Rightarrow> (Returned, st')
            | (Raised e, st') \<Rightarrow> (Raised e, st')))"

text \<open>The body of the \<^verbatim>\<open>try\<close>, lines 93 to 175.\<close>

definition try_body :: "world \<Rightarrow> (string \<times> config) list \<Rightarrow> nat \<Rightarrow> step" where
  "try_body w monitor_config n =
     seq (locate w)
    (seq (get_window_dc w)
    (seq (create_dc_from_handle w)
    (seq (create_compatible_dc w)
    (seq (compute_box w)
    (seq (create_bitmap w)
    (seq (open_sources w monitor_config)
         (playback_loop w 0 n)))))))"

text \<open>Lines 177 and 178: \<^verbatim>\<open>except Exception as e\<close>.\<close>

definition handler :: "outcome \<times> state \<Rightarrow> state" where
  "handler r = (case r of (Raised e, st) \<Rightarrow> emit (ErrorOccurred (Str e)) st | (_, st) \<Rightarrow> st)"

text \<open>
  Lines 180 to 190, the \<^verbatim>\<open>finally\<close> block. Lines 181 and 182 release every
  capture of the table; \<^verbatim>\<open>release\<close> of a capture returns nothing and reports no
  failure. The four calls that follow are each made when the test before them holds,
  and none of them is guarded: when one raises, the calls after it are not made and the
  exception leaves \<^verbatim>\<open>run\<close>. The event \<open>Release r\<close> stands for the release call of
  resource \<open>r\<close> having returned. The test \<^verbatim>\<open>if bmp:\<close> holds of the bitmap object
  as soon as \<^verbatim>\<open>win32ui.CreateBitmap()\<close> has returned it, also when
  \<^verbatim>\<open>CreateCompatibleBitmap\<close> raised and the object has no handle.
\<close>

definition release_caps :: "state \<Rightarrow> state" where
  "release_caps st = fold (\<lambda>(monitor_id, data). emit (ReleaseCap monitor_id)) (caps st) st"

fun release_api :: "resource \<Rightarrow> api" where
  "release_api SaveDC = SaveDC_DeleteDC"
| "release_api MfcDC = MfcDC_DeleteDC"
| "release_api WindowDC = ReleaseDC"
| "release_api Bitmap = DeleteObject"

definition release :: "world \<Rightarrow> resource \<Rightarrow> step" where
  "release w r st =
     (if fails w (release_api r) then (Raised (OSError (release_api r)), st)
      else (Normal, emit (Release r) st))"

definition guarded :: "(state \<Rightarrow> bool) \<Rightarrow> step \<Rightarrow> step" where
  "guarded b f st = (if b st then f st else (Normal, st))"

definition finally_block :: "world \<Rightarrow> step" where
  "finally_block w =
     seq (\<lambda>st. (Normal, release_caps st))
    (seq (guarded (\<lambda>st. save_dc st \<noteq> None) (release w SaveDC))
    (seq (guarded (\<lambda>st. mfc_dc st \<noteq> None) (release w MfcDC))
    (seq (guarded (\<lambda>st. truthy (hwnd_dc st) \<and> truthy (worker_w st)) (release w WindowDC))
         (guarded (\<lambda>st. bmp st \<noteq> None) (release w Bitmap)))))"

text \<open>
  One session: \<^verbatim>\<open>run\<close> on the configuration the thread was constructed with, in a
  world \<open>w\<close>, with \<open>n\<close> reads of the running flag before the stop request shows.
  \<open>run_result\<close> is how the \<^verbatim>\<open>finally\<close> block ends together with the last state;
  \<open>run\<close> is that state, and \<open>run_outcome\<close> tells whether an exception leaves the
  thread.
\<close>

definition run_result :: "world \<Rightarrow> (string \<times> config) list \<Rightarrow> nat \<Rightarrow> outcome \<times> state" where
  "run_result w monitor_config n =
     finally_block w (handler (try_body w monitor_config n (init w)))"

definition run :: "world \<Rightarrow> (string \<times> config) list \<Rightarrow> nat \<Rightarrow> state" where
  "run w monitor_config n = snd (run_result w monitor_config n)"

definition run_outcome :: "world \<Rightarrow> (string \<times> config) list \<Rightarrow> nat \<Rightarrow> outcome" where
  "run_outcome w monitor_config n = fst (run_result w monitor_config n)"


subsection \<open>Projections used in the proofs\<close>

text \<open>
  The variables that only the start-up assigns, and the relation between a state and a
  later one whose trace has grown by events of one kind.
\<close>

definition static :: "state \<Rightarrow> nat option \<times> nat option \<times> unit option \<times> unit option \<times> bool option \<times> bbox" where
  "static st = (worker_w st, hwnd_dc st, mfc_dc st, save_dc st, bmp st, box st)"

definition grows :: "(event \<Rightarrow> bool) \<Rightarrow> state \<Rightarrow> state \<Rightarrow> bool" where
  "grows Q st st' = (\<exists>evs. trace st' = trace st @ evs \<and> list_all Q evs)"

fun tick_event :: "event \<Rightarrow> bool" where
  "tick_event (Clear a b c d) = True"
| "tick_event (Read i ok) = True"
| "tick_event (Seek i n) = True"
| "tick_event (Blit i a b c d e f bits hdr) = True"
| "tick_event (Present a b ok) = True"
| "tick_event Print = True"
| "tick_event (FpsUpdated r) = True"
| "tick_event (WaitKey n) = True"
| "tick_event _ = False"

fun open_event :: "event \<Rightarrow> bool" where
  "open_event (Open i p ok) = True"
| "open_event (ErrorOccurred m) = True"
| "open_event (FpsUpdated r) = True"
| "open_event _ = False"


text \<open>
  Before the \<^verbatim>\<open>finally\<close> block runs: nothing has been released, and a resource has
  been acquired exactly when the variable for it holds it (for the bitmap: when the
  bitmap object has its handle).
\<close>

definition accounted :: "state \<Rightarrow> bool" where
  "accounted st =
     ((\<forall>r. count_list (trace st) (Release r) = 0)
      \<and> count_list (trace st) (Acquire WindowDC)
            = (if truthy (hwnd_dc st) \<and> truthy (worker_w st) then 1 else 0)
      \<and> count_list (trace st) (Acquire MfcDC) = (if mfc_dc st \<noteq> None then 1 else 0)
      \<and> count_list (trace st) (Acquire SaveDC) = (if save_dc st \<noteq> None then 1 else 0)
      \<and> count_list (trace st) (Acquire Bitmap) = (if bmp st = Some True then 1 else 0))"

fun resource_event :: "event \<Rightarrow> bool" where
  "resource_event (Acquire r) = True"
| "resource_event (Release r) = True"
| "resource_event _ = False"

text \<open>
  \<open>due st\<close> are the resources whose test in the \<^verbatim>\<open>finally\<close> block holds, in the
  order of the block; \<open>released w rs\<close> are the release events of the calls for \<open>rs\<close>
  up to the first that raises; \<open>releases_ok\<close> says that none of the four calls raises.
\<close>

definition due :: "state \<Rightarrow> resource list" where
  "due st =
     (if save_dc st \<noteq> None then [SaveDC] else [])
     @ (if mfc_dc st \<noteq> None then [MfcDC] else [])
     @ (if truthy (hwnd_dc st) \<and> truthy (worker_w st) then [WindowDC] else [])
     @ (if bmp st \<noteq> None then [Bitmap] else [])"

fun released :: "world \<Rightarrow> resource list \<Rightarrow> event list" where
  "released w [] = []"
| "released w (r # rs) = (if fails w (release_api r) then [] else Release r # released w rs)"

definition releases_ok :: "world \<Rightarrow> bool" where
  "releases_ok w =
     (\<not> fails w SaveDC_DeleteDC \<and> \<not> fails w MfcDC_DeleteDC
      \<and> \<not> fails w ReleaseDC \<and> \<not> fails w DeleteObject)"

text \<open>Several sessions one after the other, each in its own world.\<close>

definition run_sessions :: "(world \<times> (string \<times> config) list \<times> nat) list \<Rightarrow> event list" where
  "run_sessions ss = concat (map (\<lambda>(w, monitor_config, n). trace (run w monitor_config n)) ss)"

text \<open>
  An assignment is valid when it names a path and the path opens. \<open>startup_ok\<close> says
  that the worker window is found, no call of the start-up raises, the window device
  context is not null and there is a display; \<open>started\<close> is the state the start-up then
  leaves. \<open>open_failures\<close> lists what opening reports when no path opens, and
  \<open>reported\<close> picks the messages of the error channel from a trace.
\<close>

definition valid_assignment :: "world \<Rightarrow> config \<Rightarrow> bool" where
  "valid_assignment w cfg =
     (case video_path cfg of
        None \<Rightarrow> False
      | Some path \<Rightarrow> path \<noteq> [] \<and> VideoCapture w path \<noteq> None)"

definition startup_ok :: "world \<Rightarrow> bool" where
  "startup_ok w =
     ((case find_workerw w of Inl e \<Rightarrow> False | Inr r \<Rightarrow> truthy r)
      \<and> \<not> fails w GetWindowDC \<and> \<not> fails w CreateDCFromHandle
      \<and> \<not> fails w CreateCompatibleDC \<and> \<not> fails w CreateBitmap
      \<and> \<not> fails w CreateCompatibleBitmap \<and> \<not> fails w SelectObject
      \<and> window_dc w \<noteq> 0 \<and> displays w \<noteq> [])"

definition started :: "world \<Rightarrow> nat option \<Rightarrow> bbox \<Rightarrow> state" where
  "started w r b =
     \<lparr> caps = [], save_dc = Some (), mfc_dc = Some (), hwnd_dc = Some (window_dc w),
       bmp = Some True, worker_w = r, box = b, fps_var = None,
       surface = bitmap0 w, desktop = desktop0 w,
       trace = [Acquire WindowDC, Acquire MfcDC, Acquire SaveDC, Acquire Bitmap] \<rparr>"

fun open_failures :: "(string \<times> config) list \<Rightarrow> event list" where
  "open_failures [] = []"
| "open_failures ((monitor_id, cfg) # rest) =
     (case video_path cfg of
        None \<Rightarrow> open_failures rest
      | Some path \<Rightarrow>
          if path = [] then open_failures rest
          else Open monitor_id path False
               # ErrorOccurred (Text (''Could not open video: '' @ path))
               # open_failures rest)"

fun reported :: "event list \<Rightarrow> message list" where
  "reported [] = []"
| "reported (ErrorOccurred m # es) = m # reported es"
| "reported (e # es) = reported es"

text \<open>
  \<open>body_event\<close> holds of every event other than a release; \<open>valid_keys\<close> are the
  monitor identifiers of the valid assignments, in the order of the configuration.
\<close>

fun body_event :: "event \<Rightarrow> bool" where
  "body_event (Release r) = False"
| "body_event (ReleaseCap i) = False"
| "body_event _ = True"

definition valid_keys :: "world \<Rightarrow> (string \<times> config) list \<Rightarrow> string list" where
  "valid_keys w monitor_config =
     map fst (filter (\<lambda>(i, c). valid_assignment w c) monitor_config)"

text \<open>
  What one tick adds to the trace and does to the pixels: \<open>new_events st st'\<close> are the
  events of \<open>st'\<close> after those of \<open>st\<close>; \<open>pace_events\<close> are the events of lines 170
  to 175 for a value of the variable \<^verbatim>\<open>fps\<close>; \<open>read_frame\<close> is the outcome of the
  read with its one retry after a seek to frame 0; \<open>dest_rect b m\<close> is the rectangle of
  monitor \<open>m\<close> in the coordinates of the composition surface.
\<close>

definition new_events :: "state \<Rightarrow> state \<Rightarrow> event list" where
  "new_events st st' = drop (length (trace st)) (trace st')"

definition pace_events :: "world \<Rightarrow> nat \<Rightarrow> rat option \<Rightarrow> event list" where
  "pace_events w k fv =
     (case fv of
        None \<Rightarrow> []
      | Some f \<Rightarrow>
          (if second_elapsed w k then [FpsUpdated f] else [])
          @ (if f = 0 then [] else [WaitKey (py_int (1000 / f))]))"

definition read_frame :: "capture \<Rightarrow> (frame \<times> capture) option" where
  "read_frame c =
     (case cap_read c of
        (Some f, c1) \<Rightarrow> Some (f, c1)
      | (None, c1) \<Rightarrow>
          (case cap_read (cap_set_pos_frames c1 0) of
             (Some f, c3) \<Rightarrow> Some (f, c3)
           | (None, c3) \<Rightarrow> None))"

fun is_wait_key :: "event \<Rightarrow> bool" where
  "is_wait_key (WaitKey n) = True"
| "is_wait_key _ = False"

fun draw_event :: "event \<Rightarrow> bool" where
  "draw_event (Read i ok) = True"
| "draw_event (Seek i n) = True"
| "draw_event (Blit i a b c d e f bits hdr) = True"
| "draw_event _ = False"

definition dest_rect :: "bbox \<Rightarrow> monitor \<Rightarrow> int \<times> int \<Rightarrow> bool" where
  "dest_rect b m p =
     (case p of (px, py) \<Rightarrow>
        mon_x m - min_x b \<le> px \<and> px < mon_x m - min_x b + mon_width m
        \<and> mon_y m - min_y b \<le> py \<and> py < mon_y m - min_y b + mon_height m)"

subsection \<open>A small world to evaluate on\<close>

definition example_monitor :: monitor where
  "example_monitor =
     \<lparr> handle = 1, mon_x = 0, mon_y = 0, mon_width = 4, mon_height = 2,
       is_primary = True, device = ''A'' \<rparr>"

definition example_capture :: capture where
  "example_capture =
     \<lparr> frames = [[(1, 1, 1)], [(2, 2, 2)]], pos = 0, frame_width = 1, frame_height = 1,
       native_fps = 25, faults = [] \<rparr>"

text \<open>
  One display, a worker window behind the one that holds the icon view, one video
  file that opens, and a resampler that picks the nearest source pixel.
\<close>

definition example_world :: world where
  "example_world =
     \<lparr> windows =
         [\<lparr> hwnd = 10, class_name = ''WorkerW'', children = [''SHELLDLL_DefView''] \<rparr>,
          \<lparr> hwnd = 11, class_name = ''WorkerW'', children = [] \<rparr>],
       displays =
         [\<lparr> hMonitor = 1, rect_left = 0, rect_top = 0, rect_right = 4, rect_bottom = 2,
            Flags = Some 1, Device = Some ''A'' \<rparr>],
       fails = (\<lambda>_. False),
       window_dc = 7,
       VideoCapture = (\<lambda>p. if p = ''a.mp4'' then Some example_capture else None),
       stretch = (\<lambda>bits sw sh dw dh (i, j). bits ! nat ((j * sh div dh) * sw + i * sw div dw)),
       BitBlt_raises = (\<lambda>_. False),
       second_elapsed = (\<lambda>_. False),
       bitmap0 = (\<lambda>_. (9, 9, 9, 9)),
       desktop0 = (\<lambda>_. (8, 8, 8, 8)) \<rparr>"

definition example_config :: "string \<Rightarrow> config" where
  "example_config path =
     \<lparr> video_path = Some path, monitor_info = Some example_monitor, fps = Some 30 \<rparr>"

text \<open>The same world, except that the one call \<open>a\<close> raises.\<close>

definition failing_world :: "api \<Rightarrow> world" where
  "failing_world a = example_world\<lparr>fails := (\<lambda>c. c = a)\<rparr>"

text \<open>
  A state of the loop with two sources on the same monitor: the first has two frames
  and rate 24, the second has no frame at all and rate 30.
\<close>

definition example_state :: state where
  "example_state =
     (init example_world)
       \<lparr> caps := [(''m1'', \<lparr> cap = example_capture, info = example_monitor, data_fps = 24 \<rparr>),
                  (''m2'', \<lparr> cap = example_capture\<lparr>frames := []\<rparr>, info = example_monitor,
                            data_fps = 30 \<rparr>)],
         box := \<lparr> min_x = 0, min_y = 0, total_width = 4, total_height = 2 \<rparr> \<rparr>"

definition example_source :: "capture \<Rightarrow> source" where
  "example_source c = \<lparr> cap = c, info = example_monitor, data_fps = 30 \<rparr>"

section \<open>Properties\<close>

subsection \<open>Bounding box\<close>

lemma py_min_Min: "xs \<noteq> [] \<Longrightarrow> py_min xs = Inr (Min (set xs))"
proof (cases xs)
  case Nil
  assume "xs \<noteq> []"
  with Nil show ?thesis by simp
next
  case (Cons y ys)
  have "fold min ys y = Min (set (y # ys))"
    by (rule Min.set_eq_fold [symmetric])
  with Cons show ?thesis
    by (simp add: py_min_def)
qed

lemma py_max_Max: "xs \<noteq> [] \<Longrightarrow> py_max xs = Inr (Max (set xs))"
proof (cases xs)
  case Nil
  assume "xs \<noteq> []"
  with Nil show ?thesis by simp
next
  case (Cons y ys)
  have "fold max ys y = Max (set (y # ys))"
    by (rule Max.set_eq_fold [symmetric])
  with Cons show ?thesis
    by (simp add: py_max_def)
qed

lemma Max_shift:
  fixes f :: "'a \<Rightarrow> int"
  assumes "finite A" "A \<noteq> {}"
  shows "Max ((\<lambda>a. f a - c) ` A) = Max (f ` A) - c"
proof -
  have "mono (\<lambda>v::int. v - c)"
    by (simp add: mono_def)
  from mono_Max_commute [OF this, of "f ` A"] assms
  have "Max (f ` A) - c = Max ((\<lambda>v. v - c) ` f ` A)"
    by simp
  then show ?thesis
    by (simp add: image_image)
qed

text \<open>
  C4. For a non-empty list of monitors the bounding box is computed, its width is
  the largest right edge \<open>x + width\<close> minus the smallest \<open>x\<close>, and its height is the
  largest bottom edge \<open>y + height\<close> minus the smallest \<open>y\<close>; the origin offset is the
  smallest \<open>x\<close> and the smallest \<open>y\<close>.
\<close>

theorem bounding_box_extent:
  assumes "monitors \<noteq> []"
  shows "bounding_box monitors = Inr
           \<lparr> min_x = Min (mon_x ` set monitors),
             min_y = Min (mon_y ` set monitors),
             total_width = Max ((\<lambda>m. mon_x m + mon_width m) ` set monitors)
                             - Min (mon_x ` set monitors),
             total_height = Max ((\<lambda>m. mon_y m + mon_height m) ` set monitors)
                              - Min (mon_y ` set monitors) \<rparr>"
proof -
  from assms have ne: "set monitors \<noteq> {}" by simp
  have w: "Max ((\<lambda>m. mon_x m + mon_width m - c) ` set monitors)
             = Max ((\<lambda>m. mon_x m + mon_width m) ` set monitors) - c" for c
    using Max_shift [of "set monitors" "\<lambda>m. mon_x m + mon_width m" c] ne by simp
  have h: "Max ((\<lambda>m. mon_y m + mon_height m - c) ` set monitors)
             = Max ((\<lambda>m. mon_y m + mon_height m) ` set monitors) - c" for c
    using Max_shift [of "set monitors" "\<lambda>m. mon_y m + mon_height m" c] ne by simp
  from assms show ?thesis
    by (simp add: bounding_box_def py_min_Min py_max_Max w h)
qed

theorem bounding_box_extent_witness:
  "[\<lparr> handle = 1, mon_x = 0, mon_y = 0, mon_width = 2560, mon_height = 1440,
       is_primary = True, device = ''A'' \<rparr>,
    \<lparr> handle = 2, mon_x = - 1920, mon_y = 200, mon_width = 1920, mon_height = 1080,
       is_primary = False, device = ''B'' \<rparr>] \<noteq> []
   \<and> bounding_box
        [\<lparr> handle = 1, mon_x = 0, mon_y = 0, mon_width = 2560, mon_height = 1440,
            is_primary = True, device = ''A'' \<rparr>,
         \<lparr> handle = 2, mon_x = - 1920, mon_y = 200, mon_width = 1920, mon_height = 1080,
            is_primary = False, device = ''B'' \<rparr>]
       = Inr \<lparr> min_x = - 1920, min_y = 0, total_width = 4480, total_height = 1440 \<rparr>"
  using bounding_box_extent
    [of "[\<lparr> handle = 1, mon_x = 0, mon_y = 0, mon_width = 2560, mon_height = 1440,
             is_primary = True, device = ''A'' \<rparr>,
          \<lparr> handle = 2, mon_x = - 1920, mon_y = 200, mon_width = 1920, mon_height = 1080,
             is_primary = False, device = ''B'' \<rparr>]"]
  by simp

subsection \<open>What each part of the thread leaves alone\<close>

lemma trace_emit [simp]: "trace (emit e st) = trace st @ [e]"
  by (simp add: emit_def)

lemma emit_fields [simp]:
  "caps (emit e st) = caps st" "save_dc (emit e st) = save_dc st"
  "mfc_dc (emit e st) = mfc_dc st" "hwnd_dc (emit e st) = hwnd_dc st"
  "bmp (emit e st) = bmp st" "worker_w (emit e st) = worker_w st"
  "box (emit e st) = box st" "fps_var (emit e st) = fps_var st"
  "surface (emit e st) = surface st" "desktop (emit e st) = desktop st"
  by (simp_all add: emit_def)

lemma static_emit [simp]: "static (emit e st) = static st"
  by (simp add: static_def)

lemma static_updates [simp]:
  "static (st\<lparr>caps := c\<rparr>) = static st"
  "static (st\<lparr>fps_var := f\<rparr>) = static st"
  "static (st\<lparr>surface := s\<rparr>) = static st"
  "static (st\<lparr>desktop := d\<rparr>) = static st"
  "static (st\<lparr>trace := t\<rparr>) = static st"
  by (simp_all add: static_def)

lemma grows_refl [simp]: "grows Q st st"
  by (simp add: grows_def)

lemma grows_trans [trans]: "grows Q st st' \<Longrightarrow> grows Q st' st'' \<Longrightarrow> grows Q st st''"
  by (auto simp: grows_def)

lemma grows_emit: "Q e \<Longrightarrow> grows Q st st' \<Longrightarrow> grows Q st (emit e st')"
  by (auto simp: grows_def)

lemma grows_updates [simp]:
  "grows Q st (st'\<lparr>caps := c\<rparr>) = grows Q st st'"
  "grows Q st (st'\<lparr>fps_var := f\<rparr>) = grows Q st st'"
  "grows Q st (st'\<lparr>surface := s\<rparr>) = grows Q st st'"
  "grows Q st (st'\<lparr>desktop := d\<rparr>) = grows Q st st'"
  by (simp_all add: grows_def)

lemma blit_static [simp]: "static (blit w i d c f st) = static st"
  by (simp add: blit_def Let_def)

lemma blit_grows: "grows tick_event st st' \<Longrightarrow> grows tick_event st (blit w i d c f st')"
  by (simp add: blit_def Let_def grows_emit)

lemma draw_source_static [simp]: "static (snd (draw_source w i d st)) = static st"
  by (simp add: draw_source_def Let_def split: prod.splits option.splits)

lemma draw_source_grows: "grows tick_event st (snd (draw_source w i d st))"
  by (simp add: draw_source_def Let_def blit_grows grows_emit split: prod.splits option.splits)

lemma snd_draw_sources_Cons:
  "snd (draw_sources w ((i, d) # rest) st) = snd (draw_sources w rest (snd (draw_source w i d st)))"
  by (simp split: prod.splits)

lemma fst_draw_sources_Cons:
  "fst (draw_sources w ((i, d) # rest) st) =
     (i, d\<lparr>cap := fst (draw_source w i d st)\<rparr>) # fst (draw_sources w rest (snd (draw_source w i d st)))"
  by (simp split: prod.splits)

lemma keys_draw_sources [simp]: "map fst (fst (draw_sources w cs st)) = map fst cs"
proof (induction cs arbitrary: st)
  case Nil
  show ?case by simp
next
  case (Cons a cs)
  obtain i d where a: "a = (i, d)" by (cases a)
  show ?case
    unfolding a fst_draw_sources_Cons by (simp add: Cons.IH)
qed

lemma draw_sources_static [simp]: "static (snd (draw_sources w cs st)) = static st"
proof (induction cs arbitrary: st)
  case Nil
  show ?case by simp
next
  case (Cons a cs)
  obtain i d where a: "a = (i, d)" by (cases a)
  show ?case
    unfolding a snd_draw_sources_Cons by (simp add: Cons.IH)
qed

lemma draw_sources_grows: "grows tick_event st (snd (draw_sources w cs st))"
proof (induction cs arbitrary: st)
  case Nil
  show ?case by simp
next
  case (Cons a cs)
  obtain i d where a: "a = (i, d)" by (cases a)
  have "grows tick_event st (snd (draw_source w i d st))"
    by (rule draw_source_grows)
  then show ?case
    unfolding a snd_draw_sources_Cons by (rule grows_trans) (rule Cons.IH)
qed

lemma draw_eq: "draw w st = (snd (draw_sources w (caps st) st))\<lparr>caps := fst (draw_sources w (caps st) st)\<rparr>"
  by (simp add: draw_def split: prod.splits)

lemma draw_static [simp]: "static (draw w st) = static st"
  by (simp add: draw_eq)

lemma draw_grows: "grows tick_event st (draw w st)"
  by (simp add: draw_eq draw_sources_grows)

lemma draw_keys [simp]: "map fst (caps (draw w st)) = map fst (caps st)"
  by (simp add: draw_eq)

lemma clear_static [simp]: "static (clear st) = static st"
  by (simp add: clear_def)

lemma clear_caps [simp]: "caps (clear st) = caps st"
  by (simp add: clear_def)

lemma clear_grows: "grows tick_event st (clear st)"
  by (simp add: clear_def grows_emit)

lemma present_static [simp]: "static (present w k st) = static st"
  by (simp add: present_def)

lemma present_caps [simp]: "caps (present w k st) = caps st"
  by (simp add: present_def)

lemma present_grows: "grows tick_event st (present w k st)"
  by (simp add: present_def grows_emit)

lemma pace_static [simp]: "static (snd (pace w k st)) = static st"
  by (simp add: pace_def Let_def split: option.splits)

lemma pace_caps [simp]: "caps (snd (pace w k st)) = caps st"
  by (simp add: pace_def Let_def split: option.splits)

lemma pace_grows: "grows tick_event st (snd (pace w k st))"
  by (simp add: pace_def Let_def grows_emit split: option.splits)

lemma tick_static [simp]: "static (snd (tick w k st)) = static st"
  by (simp add: tick_def)

lemma tick_keys [simp]: "map fst (caps (snd (tick w k st))) = map fst (caps st)"
  by (simp add: tick_def)

lemma tick_grows: "grows tick_event st (snd (tick w k st))"
proof -
  have "grows tick_event st (clear st)"
    by (rule clear_grows)
  also have "grows tick_event (clear st) (draw w (clear st))"
    by (rule draw_grows)
  also have "grows tick_event (draw w (clear st)) (present w k (draw w (clear st)))"
    by (rule present_grows)
  also have "grows tick_event (present w k (draw w (clear st))) (snd (tick w k st))"
    unfolding tick_def by (rule pace_grows)
  finally show ?thesis .
qed

lemma snd_playback_loop_Suc:
  "snd (playback_loop w k (Suc n) st) =
     (if caps st = [] then st
      else if fst (tick w k st) = Normal then snd (playback_loop w (Suc k) n (snd (tick w k st)))
      else snd (tick w k st))"
  by (simp split: prod.splits outcome.splits)

lemma playback_loop_static [simp]: "static (snd (playback_loop w k n st)) = static st"
  by (induction n arbitrary: k st) (simp_all add: snd_playback_loop_Suc del: playback_loop.simps(2))

lemma playback_loop_keys [simp]:
  "map fst (caps (snd (playback_loop w k n st))) = map fst (caps st)"
  by (induction n arbitrary: k st) (simp_all add: snd_playback_loop_Suc del: playback_loop.simps(2))

lemma playback_loop_grows: "grows tick_event st (snd (playback_loop w k n st))"
proof (induction n arbitrary: k st)
  case 0
  show ?case by simp
next
  case (Suc n)
  have "grows tick_event st (snd (playback_loop w (Suc k) n (snd (tick w k st))))"
    using tick_grows Suc.IH by (rule grows_trans)
  then show ?case
    by (simp add: snd_playback_loop_Suc tick_grows del: playback_loop.simps(2))
qed

lemma playback_loop_empty: "caps st = [] \<Longrightarrow> playback_loop w k n st = (Normal, st)"
  by (cases n) simp_all

lemma open_sources_static [simp]: "static (snd (open_sources w cfg st)) = static st"
  by (induction cfg arbitrary: st) (auto split: option.splits)

lemma open_sources_grows: "grows open_event st (snd (open_sources w cfg st))"
proof (induction cfg arbitrary: st)
  case Nil
  show ?case by simp
next
  case (Cons a cfg)
  have step: "grows open_event st (snd (open_sources w cfg st1))"
    if "grows open_event st st1" for st1
    using that Cons.IH by (rule grows_trans)
  show ?case
    by (cases a) (auto split: option.splits simp: step grows_emit)
qed

subsection \<open>The worker window is not found\<close>

text \<open>
  C8. When \<^verbatim>\<open>find_workerw\<close> returns \<^verbatim>\<open>None\<close> or the null handle, the whole session
  consists of one report on the error channel: no device context or bitmap is acquired,
  no video is opened, no tick runs, and the thread ends with every variable for a
  drawing object still \<^verbatim>\<open>None\<close>.
\<close>

theorem worker_not_found:
  assumes "find_workerw w = Inr r" and "\<not> truthy r"
  shows "trace (run w monitor_config n) = [ErrorOccurred (Text ''Could not find WorkerW window'')]
         \<and> caps (run w monitor_config n) = []
         \<and> hwnd_dc (run w monitor_config n) = None
         \<and> mfc_dc (run w monitor_config n) = None
         \<and> save_dc (run w monitor_config n) = None
         \<and> bmp (run w monitor_config n) = None"
  using assms
  by (simp add: run_def run_result_def try_body_def seq_def locate_def handler_def
      finally_block_def guarded_def release_caps_def init_def emit_def truthy_def)

theorem worker_not_found_witness:
  "find_workerw (example_world\<lparr>windows := []\<rparr>) = Inr None
   \<and> \<not> truthy None
   \<and> trace (run (example_world\<lparr>windows := []\<rparr>) [(''m1'', example_config ''a.mp4'')] 3)
       = [ErrorOccurred (Text ''Could not find WorkerW window'')]"
proof -
  have a: "find_workerw (example_world\<lparr>windows := []\<rparr>) = Inr None"
    by code_simp
  have b: "\<not> truthy None"
    by (simp add: truthy_def)
  from worker_not_found [OF a b] a b show ?thesis
    by simp
qed

subsection \<open>Drawing resources are released on every path\<close>

lemma grows_mono: "grows Q st st' \<Longrightarrow> (\<And>e. Q e \<Longrightarrow> Q' e) \<Longrightarrow> grows Q' st st'"
  by (auto simp: grows_def list_all_iff)

lemma count_list_none: "list_all (\<lambda>e. e \<noteq> x) evs \<Longrightarrow> count_list evs x = 0"
  by (induction evs) auto

lemma grows_count:
  assumes "grows Q st st'" and "\<not> Q x"
  shows "count_list (trace st') x = count_list (trace st) x"
proof -
  from assms(1) obtain evs where t: "trace st' = trace st @ evs" and q: "list_all Q evs"
    by (auto simp: grows_def)
  from q assms(2) have "list_all (\<lambda>e. e \<noteq> x) evs"
    by (auto simp: list_all_iff)
  then have "count_list evs x = 0"
    by (rule count_list_none)
  with t show ?thesis by simp
qed

lemma accounted_frame:
  assumes s: "static st' = static st" and g: "grows Q st st'"
    and q: "\<And>e. Q e \<Longrightarrow> \<not> resource_event e"
  shows "accounted st' = accounted st"
proof -
  have c: "count_list (trace st') x = count_list (trace st) x" if "resource_event x" for x
    using g q that by (blast intro: grows_count)
  from s have "hwnd_dc st' = hwnd_dc st" "worker_w st' = worker_w st" "mfc_dc st' = mfc_dc st"
    "save_dc st' = save_dc st" "bmp st' = bmp st"
    by (simp_all add: static_def)
  then show ?thesis
    by (simp add: accounted_def c)
qed

lemma snd_seq:
  "snd (seq f g st) = (if fst (f st) = Normal then snd (g (snd (f st))) else snd (f st))"
  by (simp add: seq_def split: prod.splits outcome.splits)

lemma open_sources_accounted: "accounted (snd (open_sources w cfg st)) = accounted st"
proof (rule accounted_frame)
  show "static (snd (open_sources w cfg st)) = static st" by simp
  show "grows open_event st (snd (open_sources w cfg st))" by (rule open_sources_grows)
  show "\<not> resource_event e" if "open_event e" for e
    using that by (cases e) simp_all
qed

lemma playback_loop_accounted: "accounted (snd (playback_loop w k n st)) = accounted st"
proof (rule accounted_frame)
  show "static (snd (playback_loop w k n st)) = static st" by simp
  show "grows tick_event st (snd (playback_loop w k n st))" by (rule playback_loop_grows)
  show "\<not> resource_event e" if "tick_event e" for e
    using that by (cases e) simp_all
qed

lemma seq_accounted:
  assumes "fst (f st) = Normal \<Longrightarrow> accounted (snd (g (snd (f st))))"
    and "fst (f st) \<noteq> Normal \<Longrightarrow> accounted (snd (f st))"
  shows "accounted (snd (seq f g st))"
  using assms by (simp add: snd_seq)

lemma create_bitmap_accounted:
  assumes "accounted st" and "bmp st = None"
  shows "accounted (snd (create_bitmap w st))"
  using assms by (simp add: create_bitmap_def accounted_def)

lemma compute_box_accounted:
  assumes "accounted st" and "bmp st = None"
  shows "accounted (snd (compute_box w st)) \<and> bmp (snd (compute_box w st)) = None"
  using assms by (simp add: compute_box_def accounted_def split: sum.splits)

lemma create_compatible_dc_accounted:
  assumes "accounted st" and "save_dc st = None" and "bmp st = None"
  shows "accounted (snd (create_compatible_dc w st)) \<and> bmp (snd (create_compatible_dc w st)) = None"
  using assms by (simp add: create_compatible_dc_def accounted_def)

lemma create_dc_from_handle_accounted:
  assumes "accounted st" and "mfc_dc st = None" and "save_dc st = None" and "bmp st = None"
  shows "accounted (snd (create_dc_from_handle w st))
         \<and> save_dc (snd (create_dc_from_handle w st)) = None
         \<and> bmp (snd (create_dc_from_handle w st)) = None"
  using assms by (simp add: create_dc_from_handle_def accounted_def)

lemma get_window_dc_accounted:
  assumes "accounted st" and "hwnd_dc st = None" and "truthy (worker_w st)"
    and "mfc_dc st = None" and "save_dc st = None" and "bmp st = None"
  shows "accounted (snd (get_window_dc w st))
         \<and> mfc_dc (snd (get_window_dc w st)) = None
         \<and> save_dc (snd (get_window_dc w st)) = None
         \<and> bmp (snd (get_window_dc w st)) = None"
  using assms by (simp add: get_window_dc_def accounted_def truthy_def)

lemma locate_accounted:
  "accounted (snd (locate w (init w)))
   \<and> hwnd_dc (snd (locate w (init w))) = None
   \<and> mfc_dc (snd (locate w (init w))) = None
   \<and> save_dc (snd (locate w (init w))) = None
   \<and> bmp (snd (locate w (init w))) = None
   \<and> (fst (locate w (init w)) = Normal \<longrightarrow> truthy (worker_w (snd (locate w (init w)))))"
  by (simp add: locate_def accounted_def init_def truthy_def split: sum.splits)

lemma try_body_accounted: "accounted (snd (try_body w cfg n (init w)))"
proof -
  let ?s1 = "snd (locate w (init w))"
  let ?s2 = "snd (get_window_dc w ?s1)"
  let ?s3 = "snd (create_dc_from_handle w ?s2)"
  let ?s4 = "snd (create_compatible_dc w ?s3)"
  let ?s5 = "snd (compute_box w ?s4)"
  let ?s6 = "snd (create_bitmap w ?s5)"
  note l1 = locate_accounted [of w]
  have a1: "accounted ?s1" using l1 by simp
  have rest: "accounted ?s2 \<and> accounted ?s3 \<and> accounted ?s4 \<and> accounted ?s5 \<and> accounted ?s6"
    if n1: "fst (locate w (init w)) = Normal"
  proof -
    from l1 n1 have l2: "accounted ?s2 \<and> mfc_dc ?s2 = None \<and> save_dc ?s2 = None \<and> bmp ?s2 = None"
      by (intro get_window_dc_accounted) simp_all
    then have l3: "accounted ?s3 \<and> save_dc ?s3 = None \<and> bmp ?s3 = None"
      by (intro create_dc_from_handle_accounted) simp_all
    then have l4: "accounted ?s4 \<and> bmp ?s4 = None"
      by (intro create_compatible_dc_accounted) simp_all
    then have l5: "accounted ?s5 \<and> bmp ?s5 = None"
      by (intro compute_box_accounted) simp_all
    then have l6: "accounted ?s6"
      by (intro create_bitmap_accounted) simp_all
    from l2 l3 l4 l5 l6 show ?thesis by simp
  qed
  show ?thesis
    unfolding try_body_def
    using a1 rest by (simp add: snd_seq open_sources_accounted playback_loop_accounted)
qed

lemma accounted_emit: "\<not> resource_event e \<Longrightarrow> accounted (emit e st) = accounted st"
  by (cases e) (simp_all add: accounted_def)

lemma handler_accounted: "accounted (handler r) = accounted (snd r)"
  by (cases r) (simp add: handler_def accounted_emit split: outcome.splits)

lemma trace_release_caps: "trace (release_caps st) = trace st @ map (\<lambda>c. ReleaseCap (fst c)) (caps st)"
proof -
  have "trace (fold (\<lambda>(i, d). emit (ReleaseCap i)) cs st) = trace st @ map (\<lambda>c. ReleaseCap (fst c)) cs"
    for cs
    by (induction cs arbitrary: st) (auto split: prod.splits)
  then show ?thesis by (simp add: release_caps_def)
qed

lemma static_release_caps [simp]: "static (release_caps st) = static st"
proof -
  have "static (fold (\<lambda>(i, d). emit (ReleaseCap i)) cs st) = static st" for cs
    by (induction cs arbitrary: st) (auto split: prod.splits)
  then show ?thesis by (simp add: release_caps_def)
qed

lemma caps_release_caps [simp]: "caps (release_caps st) = caps st"
proof -
  have "caps (fold (\<lambda>(i, d). emit (ReleaseCap i)) cs st) = caps st" for cs
    by (induction cs arbitrary: st) (auto split: prod.splits)
  then show ?thesis by (simp add: release_caps_def)
qed

lemma count_release_caps [simp]:
  "count_list (map (\<lambda>c. ReleaseCap (fst c)) cs) (Acquire r) = 0"
  "count_list (map (\<lambda>c. ReleaseCap (fst c)) cs) (Release r) = 0"
  by (induction cs) simp_all

lemma static_fields:
  "static st' = static st \<Longrightarrow>
     worker_w st' = worker_w st \<and> hwnd_dc st' = hwnd_dc st \<and> mfc_dc st' = mfc_dc st
     \<and> save_dc st' = save_dc st \<and> bmp st' = bmp st \<and> box st' = box st"
  by (simp add: static_def)

lemma release_caps_fields [simp]:
  "worker_w (release_caps st) = worker_w st" "hwnd_dc (release_caps st) = hwnd_dc st"
  "mfc_dc (release_caps st) = mfc_dc st" "save_dc (release_caps st) = save_dc st"
  "bmp (release_caps st) = bmp st"
  using static_fields [OF static_release_caps [of st]] by simp_all

lemma guarded_release:
  "fst (guarded b (release w r) st)
     = (if b st \<and> fails w (release_api r) then Raised (OSError (release_api r)) else Normal)"
  "snd (guarded b (release w r) st)
     = (if b st \<and> \<not> fails w (release_api r) then emit (Release r) st else st)"
  by (simp_all add: guarded_def release_def)

lemma snd_guarded_seq:
  "snd (seq (guarded b (release w r)) g st)
     = (if b st then (if fails w (release_api r) then st else snd (g (emit (Release r) st)))
        else snd (g st))"
  by (simp add: snd_seq guarded_release)

lemma finally_block_trace:
  "trace (snd (finally_block w st))
     = trace st @ map (\<lambda>c. ReleaseCap (fst c)) (caps st) @ released w (due st)"
  by (simp add: finally_block_def snd_seq [of "\<lambda>st. (Normal, release_caps st)"]
      snd_guarded_seq guarded_release due_def trace_release_caps)

lemma finally_block_static [simp]: "static (snd (finally_block w st)) = static st"
  by (simp add: finally_block_def snd_seq guarded_release)

lemma finally_block_caps [simp]: "caps (snd (finally_block w st)) = caps st"
  by (simp add: finally_block_def snd_seq guarded_release)

lemma releases_ok_api: "releases_ok w \<Longrightarrow> \<not> fails w (release_api r)"
  by (cases r) (simp_all add: releases_ok_def)

lemma count_released [simp]:
  "count_list (released w rs) (Acquire r) = 0"
  "count_list (released w rs) (ReleaseCap i) = 0"
  by (induction rs) simp_all

lemma count_released_le: "count_list (released w rs) (Release r) \<le> count_list rs r"
  by (induction rs) auto

lemma count_released_ok:
  "releases_ok w \<Longrightarrow> count_list (released w rs) (Release r) = count_list rs r"
  by (induction rs) (auto simp: releases_ok_api)

lemma count_due:
  "count_list (due st) SaveDC = (if save_dc st \<noteq> None then 1 else 0)"
  "count_list (due st) MfcDC = (if mfc_dc st \<noteq> None then 1 else 0)"
  "count_list (due st) WindowDC = (if truthy (hwnd_dc st) \<and> truthy (worker_w st) then 1 else 0)"
  "count_list (due st) Bitmap = (if bmp st \<noteq> None then 1 else 0)"
  by (simp_all add: due_def)

lemma count_due_accounted:
  assumes "accounted st"
  shows "count_list (due st) r
           = (if r = Bitmap \<and> bmp st = Some False then 1 else count_list (trace st) (Acquire r))"
  using assms by (cases r) (auto simp: count_due accounted_def)

lemma finally_block_counts:
  assumes "accounted st"
  shows "count_list (trace (snd (finally_block w st))) (Acquire r) \<le> 1"
    and "count_list (trace (snd (finally_block w st))) (Release r) \<le> 1"
    and "releases_ok w \<Longrightarrow>
           count_list (trace (snd (finally_block w st))) (Release r)
             = (if r = Bitmap \<and> bmp st = Some False then 1
                else count_list (trace (snd (finally_block w st))) (Acquire r))"
proof -
  from assms have z: "count_list (trace st) (Release r) = 0"
    by (simp add: accounted_def)
  from assms have a: "count_list (trace st) (Acquire r) \<le> 1"
    by (cases r) (simp_all add: accounted_def)
  then show "count_list (trace (snd (finally_block w st))) (Acquire r) \<le> 1"
    by (simp add: finally_block_trace)
  have "count_list (due st) r \<le> 1"
    by (cases r) (simp_all add: count_due)
  with count_released_le [of w "due st" r]
  show "count_list (trace (snd (finally_block w st))) (Release r) \<le> 1"
    by (simp add: finally_block_trace z)
  show "count_list (trace (snd (finally_block w st))) (Release r)
          = (if r = Bitmap \<and> bmp st = Some False then 1
             else count_list (trace (snd (finally_block w st))) (Acquire r))"
    if "releases_ok w"
    using count_released_ok [OF that, of "due st" r] count_due_accounted [OF assms, of r]
    by (simp add: finally_block_trace z)
qed

lemma startup_bmp [simp]:
  "bmp (snd (locate w st)) = bmp st"
  "bmp (snd (get_window_dc w st)) = bmp st"
  "bmp (snd (create_dc_from_handle w st)) = bmp st"
  "bmp (snd (create_compatible_dc w st)) = bmp st"
  "bmp (snd (compute_box w st)) = bmp st"
  "bmp (snd (create_bitmap w st))
     = (if fails w CreateBitmap then bmp st
        else if fails w CreateCompatibleBitmap then Some False else Some True)"
  by (simp_all add: locate_def get_window_dc_def create_dc_from_handle_def
      create_compatible_dc_def compute_box_def create_bitmap_def split: sum.splits)

lemma sources_bmp [simp]:
  "bmp (snd (open_sources w cfg st)) = bmp st"
  "bmp (snd (playback_loop w k n st)) = bmp st"
  using static_fields [OF open_sources_static [of w cfg st]]
    static_fields [OF playback_loop_static [of w k n st]]
  by simp_all

lemma try_body_bmp:
  "bmp (snd (try_body w cfg n (init w))) = Some False \<Longrightarrow> fails w CreateCompatibleBitmap"
proof -
  have i: "bmp (init w) = None" by (simp add: init_def)
  assume "bmp (snd (try_body w cfg n (init w))) = Some False"
  then show ?thesis
    unfolding try_body_def by (simp add: snd_seq i split: if_splits)
qed

lemma handler_bmp [simp]: "bmp (handler r) = bmp (snd r)"
  by (cases r) (simp add: handler_def split: outcome.splits)

lemma run_bmp: "bmp (run w cfg n) = bmp (snd (try_body w cfg n (init w)))"
  using static_fields [OF finally_block_static [of w "handler (try_body w cfg n (init w))"]]
  by (simp add: run_def run_result_def)

lemma run_counts:
  "count_list (trace (run w cfg n)) (Acquire r) \<le> 1"
  "count_list (trace (run w cfg n)) (Release r) \<le> 1"
  "releases_ok w \<Longrightarrow>
     count_list (trace (run w cfg n)) (Release r)
       = (if r = Bitmap \<and> bmp (run w cfg n) = Some False then 1
          else count_list (trace (run w cfg n)) (Acquire r))"
proof -
  have a: "accounted (handler (try_body w cfg n (init w)))"
    by (simp add: handler_accounted try_body_accounted)
  show "count_list (trace (run w cfg n)) (Acquire r) \<le> 1"
    and "count_list (trace (run w cfg n)) (Release r) \<le> 1"
    unfolding run_def run_result_def by (rule finally_block_counts [OF a])+
  have e: "bmp (run w cfg n) = bmp (handler (try_body w cfg n (init w)))"
    by (simp add: run_bmp)
  show "count_list (trace (run w cfg n)) (Release r)
          = (if r = Bitmap \<and> bmp (run w cfg n) = Some False then 1
             else count_list (trace (run w cfg n)) (Acquire r))"
    if "releases_ok w"
    unfolding e unfolding run_def run_result_def
    by (rule finally_block_counts(3) [OF a that])
qed

text \<open>
  C2, as the code has it. In every session each drawing resource (the window device
  context, the device context made from its handle, the compatible device context and
  the bitmap) is acquired at most once and its release call returns at most once. When
  none of the four release calls of the \<^verbatim>\<open>finally\<close> block raises, every resource
  that was acquired is released exactly once, however the body of \<^verbatim>\<open>run\<close> ended (the
  early return, an exception at any call of the start-up, an exception in a tick, or
  the end of the loop); the one release call without an acquisition is
  \<^verbatim>\<open>DeleteObject\<close> on the bitmap object after \<^verbatim>\<open>CreateCompatibleBitmap\<close> raised.
  Over any sequence of such sessions every acquisition has its release.
\<close>

theorem drawing_resources_released:
  "count_list (trace (run w monitor_config n)) (Acquire r) \<le> 1
   \<and> count_list (trace (run w monitor_config n)) (Release r) \<le> 1
   \<and> (releases_ok w \<longrightarrow>
         count_list (trace (run w monitor_config n)) (Release r)
           = (if r = Bitmap \<and> bmp (run w monitor_config n) = Some False then 1
              else count_list (trace (run w monitor_config n)) (Acquire r)))
   \<and> (bmp (run w monitor_config n) = Some False \<longrightarrow> fails w CreateCompatibleBitmap)
   \<and> (list_all (\<lambda>(w, monitor_config, n). releases_ok w) ss \<longrightarrow>
         count_list (run_sessions ss) (Acquire r) \<le> count_list (run_sessions ss) (Release r))"
proof -
  have s: "count_list (run_sessions ss) (Acquire r) \<le> count_list (run_sessions ss) (Release r)"
    if "list_all (\<lambda>(w, monitor_config, n). releases_ok w) ss"
    using that
  proof (induction ss)
    case Nil
    show ?case by (simp add: run_sessions_def)
  next
    case (Cons a ss)
    obtain w' c' n' where a: "a = (w', c', n')" by (cases a)
    from Cons.prems
    have p: "(case a of (w, monitor_config, n) \<Rightarrow> releases_ok w)
               \<and> list_all (\<lambda>(w, monitor_config, n). releases_ok w) ss"
      by (simp only: list.pred_inject)
    from p have ok: "releases_ok w'"
      by (simp add: a)
    from p have rest: "list_all (\<lambda>(w, monitor_config, n). releases_ok w) ss"
      by (rule conjunct2)
    from run_counts(3) [OF ok, of c' n' r]
    have "count_list (trace (run w' c' n')) (Acquire r)
            \<le> count_list (trace (run w' c' n')) (Release r)"
      using run_counts(1) [of w' c' n' r] by (auto split: if_splits)
    with Cons.IH [OF rest] show ?case
      by (simp add: run_sessions_def a)
  qed
  have b: "fails w CreateCompatibleBitmap" if "bmp (run w monitor_config n) = Some False"
    using that by (simp add: run_bmp try_body_bmp)
  from run_counts [of w monitor_config n r] s b show ?thesis
    by blast
qed

theorem drawing_resources_released_witness:
  "releases_ok example_world
   \<and> count_list (trace (run example_world [(''m1'', example_config ''a.mp4'')] 1))
        (Acquire Bitmap) = 1
   \<and> count_list (trace (run example_world [(''m1'', example_config ''a.mp4'')] 1))
        (Release Bitmap) = 1
   \<and> releases_ok (failing_world CreateCompatibleBitmap)
   \<and> bmp (run (failing_world CreateCompatibleBitmap) [(''m1'', example_config ''a.mp4'')] 1)
       = Some False
   \<and> fails (failing_world CreateCompatibleBitmap) CreateCompatibleBitmap
   \<and> count_list (trace (run (failing_world CreateCompatibleBitmap)
        [(''m1'', example_config ''a.mp4'')] 1)) (Release Bitmap) = 1
   \<and> list_all (\<lambda>(w, monitor_config, n). releases_ok w)
        [(example_world, [(''m1'', example_config ''a.mp4'')], 1),
         (failing_world CreateCompatibleBitmap, [(''m1'', example_config ''a.mp4'')], 1)]
   \<and> count_list (run_sessions
        [(example_world, [(''m1'', example_config ''a.mp4'')], 1),
         (failing_world CreateCompatibleBitmap, [(''m1'', example_config ''a.mp4'')], 1)])
        (Acquire Bitmap)
       \<le> count_list (run_sessions
        [(example_world, [(''m1'', example_config ''a.mp4'')], 1),
         (failing_world CreateCompatibleBitmap, [(''m1'', example_config ''a.mp4'')], 1)])
        (Release Bitmap)"
proof -
  let ?cfg = "[(''m1'', example_config ''a.mp4'')]"
  let ?f = "failing_world CreateCompatibleBitmap"
  let ?ss = "[(example_world, ?cfg, 1), (?f, ?cfg, 1)]"
  have o1: "releases_ok example_world"
    by (simp add: releases_ok_def example_world_def)
  have o2: "releases_ok ?f"
    by (simp add: releases_ok_def failing_world_def)
  have b1: "bmp (run example_world ?cfg 1) = Some True"
    by code_simp
  have b2: "bmp (run ?f ?cfg 1) = Some False"
    by code_simp
  have a1: "count_list (trace (run example_world ?cfg 1)) (Acquire Bitmap) = 1"
    by code_simp
  have l: "list_all (\<lambda>(w, monitor_config, n). releases_ok w) ?ss"
    using o1 o2 by simp
  from drawing_resources_released [of example_world ?cfg 1 Bitmap ?ss] o1 b1 a1 l
  have r1: "count_list (trace (run example_world ?cfg 1)) (Release Bitmap) = 1"
    and s: "count_list (run_sessions ?ss) (Acquire Bitmap)
              \<le> count_list (run_sessions ?ss) (Release Bitmap)"
    by simp_all
  from drawing_resources_released [of ?f ?cfg 1 Bitmap ?ss] o2 b2
  have r2: "count_list (trace (run ?f ?cfg 1)) (Release Bitmap) = 1"
    and f: "fails ?f CreateCompatibleBitmap"
    by simp_all
  from o1 o2 a1 r1 b2 f r2 l s show ?thesis
    by blast
qed

text \<open>
  The claim as written fails: when \<^verbatim>\<open>save_dc.DeleteDC()\<close> raises, the exception
  leaves the \<^verbatim>\<open>finally\<close> block and \<^verbatim>\<open>run\<close>, and the three calls after it are never
  made: the window device context and the bitmap stay acquired.
\<close>

theorem drawing_resources_released_counterexample:
  "run_outcome (failing_world SaveDC_DeleteDC) [(''m1'', example_config ''a.mp4'')] 1
     = Raised (OSError SaveDC_DeleteDC)
   \<and> count_list (trace (run (failing_world SaveDC_DeleteDC)
        [(''m1'', example_config ''a.mp4'')] 1)) (Acquire WindowDC) = 1
   \<and> count_list (trace (run (failing_world SaveDC_DeleteDC)
        [(''m1'', example_config ''a.mp4'')] 1)) (Release WindowDC) = 0
   \<and> trace (run (failing_world SaveDC_DeleteDC) [(''m1'', example_config ''a.mp4'')] 1)
       = [Acquire WindowDC, Acquire MfcDC, Acquire SaveDC, Acquire Bitmap,
          Open ''m1'' ''a.mp4'' True, FpsUpdated 25,
          Clear 0 0 4 2, Read ''m1'' True,
          Blit ''m1'' 0 0 4 2 1 1 [(1, 1, 1, 255)] [40, 1, - 1, 1, 32, 0, 4, 0, 0, 0, 0],
          Present 4 2 True, WaitKey 33,
          ReleaseCap ''m1'']"
  by code_simp

subsection \<open>A session without a valid assignment\<close>

lemma bounding_box_some: "monitors \<noteq> [] \<Longrightarrow> \<exists>b. bounding_box monitors = Inr b"
  using bounding_box_extent [of monitors] by simp

lemma try_body_started:
  assumes "startup_ok w"
  shows "\<exists>r b. find_workerw w = Inr r \<and> truthy r
           \<and> bounding_box (get_monitors (displays w)) = Inr b
           \<and> try_body w cfg n (init w)
               = seq (open_sources w cfg) (playback_loop w 0 n) (started w r b)"
proof -
  from assms obtain r where r: "find_workerw w = Inr r" "truthy r"
    by (auto simp: startup_ok_def split: sum.splits)
  from assms have "get_monitors (displays w) \<noteq> []"
    by (simp add: startup_ok_def get_monitors_def)
  then obtain b where b: "bounding_box (get_monitors (displays w)) = Inr b"
    using bounding_box_some by blast
  have "try_body w cfg n (init w)
          = seq (open_sources w cfg) (playback_loop w 0 n) (started w r b)"
    using assms r b
    by (simp add: try_body_def seq_def [of "locate w"] seq_def [of "get_window_dc w"]
        seq_def [of "create_dc_from_handle w"] seq_def [of "create_compatible_dc w"]
        seq_def [of "compute_box w"] seq_def [of "create_bitmap w"]
        locate_def get_window_dc_def create_dc_from_handle_def create_compatible_dc_def
        compute_box_def create_bitmap_def startup_ok_def init_def emit_def started_def)
  with r b show ?thesis by blast
qed

lemma open_sources_none_valid:
  assumes "list_all (\<lambda>(i, c). \<not> valid_assignment w c) cfg"
  shows "open_sources w cfg st = (Normal, st\<lparr>trace := trace st @ open_failures cfg\<rparr>)"
  using assms
proof (induction cfg arbitrary: st)
  case Nil
  show ?case by simp
next
  case (Cons a cfg)
  obtain i c where a: "a = (i, c)" by (cases a)
  from Cons.prems have rest: "list_all (\<lambda>(i, c). \<not> valid_assignment w c) cfg"
    and nv: "\<not> valid_assignment w c"
    by (simp_all add: a)
  show ?case
    using nv Cons.IH [OF rest]
    by (auto simp: a valid_assignment_def emit_def split: option.splits)
qed

text \<open>
  C1, as the code has it. When the start-up succeeds and no assignment names a path
  that opens, the loop is never entered: no tick runs, the source table stays empty
  and the thread ends in the \<^verbatim>\<open>finally\<close> block, which releases the four drawing
  resources in its order, up to the first release call that raises: all four when
  none does. The error channel gets one message for each assignment whose non-empty
  path fails to open, and nothing else; with no path configured at all nothing is
  reported.
\<close>

theorem no_valid_assignment:
  assumes "startup_ok w"
    and "list_all (\<lambda>(i, c). \<not> valid_assignment w c) monitor_config"
  shows "trace (run w monitor_config n)
           = [Acquire WindowDC, Acquire MfcDC, Acquire SaveDC, Acquire Bitmap]
             @ open_failures monitor_config
             @ released w [SaveDC, MfcDC, WindowDC, Bitmap]
         \<and> (releases_ok w \<longrightarrow>
               trace (run w monitor_config n)
                 = [Acquire WindowDC, Acquire MfcDC, Acquire SaveDC, Acquire Bitmap]
                   @ open_failures monitor_config
                   @ [Release SaveDC, Release MfcDC, Release WindowDC, Release Bitmap])
         \<and> caps (run w monitor_config n) = []"
proof -
  from try_body_started [OF assms(1)] obtain r b where r: "truthy r"
    and t: "try_body w monitor_config n (init w)
              = seq (open_sources w monitor_config) (playback_loop w 0 n) (started w r b)"
    by blast
  have "try_body w monitor_config n (init w)
          = (Normal, (started w r b)\<lparr>trace := trace (started w r b) @ open_failures monitor_config\<rparr>)"
    by (simp add: t seq_def open_sources_none_valid [OF assms(2)] playback_loop_empty started_def)
  then show ?thesis
    using r assms(1)
    by (simp add: run_def run_result_def finally_block_trace handler_def due_def started_def
        emit_def startup_ok_def truthy_def releases_ok_def)
qed

theorem no_valid_assignment_witness:
  "startup_ok example_world
   \<and> list_all (\<lambda>(i, c). \<not> valid_assignment example_world c)
        [(''m1'', example_config ''b.mp4''), (''m2'', example_config [])]
   \<and> trace (run example_world
               [(''m1'', example_config ''b.mp4''), (''m2'', example_config [])] 4)
       = [Acquire WindowDC, Acquire MfcDC, Acquire SaveDC, Acquire Bitmap,
          Open ''m1'' ''b.mp4'' False,
          ErrorOccurred (Text ''Could not open video: b.mp4''),
          Release SaveDC, Release MfcDC, Release WindowDC, Release Bitmap]"
proof -
  have a: "startup_ok example_world"
    by code_simp
  have b: "list_all (\<lambda>(i, c). \<not> valid_assignment example_world c)
             [(''m1'', example_config ''b.mp4''), (''m2'', example_config [])]"
    by code_simp
  have c: "releases_ok example_world"
    by (simp add: releases_ok_def example_world_def)
  from no_valid_assignment [OF a b, of 4] a b c show ?thesis
    by (simp add: example_config_def releases_ok_def)
qed

text \<open>
  The claim as written fails: with a single assignment whose path is empty the session
  starts up, runs no tick, and ends without any message on the error channel.
\<close>

theorem no_valid_assignment_counterexample:
  "\<not> valid_assignment example_world (example_config [])
   \<and> reported (trace (run example_world [(''m1'', example_config [])] 5)) = []
   \<and> trace (run example_world [(''m1'', example_config [])] 5)
       = [Acquire WindowDC, Acquire MfcDC, Acquire SaveDC, Acquire Bitmap,
          Release SaveDC, Release MfcDC, Release WindowDC, Release Bitmap]"
  by code_simp

subsection \<open>No monitor is enumerated\<close>

text \<open>
  C5, as the code has it. With no display, \<^verbatim>\<open>min\<close> over the empty sequence raises
  \<^verbatim>\<open>ValueError\<close>: no bounding box exists, not a degenerate one. The handler of \<^verbatim>\<open>run\<close>
  reports the exception on the error channel; no bitmap is created, no video is
  opened, no tick runs, and the \<^verbatim>\<open>finally\<close> block releases the three device contexts
  acquired before, up to the first release call that raises: all three when none does.
\<close>

theorem no_monitors:
  assumes "displays w = []"
    and "find_workerw w = Inr r" and "truthy r"
    and "\<not> fails w GetWindowDC" and "\<not> fails w CreateDCFromHandle"
    and "\<not> fails w CreateCompatibleDC" and "window_dc w \<noteq> 0"
  shows "bounding_box (get_monitors (displays w)) = Inl ValueError
         \<and> trace (run w monitor_config n)
             = [Acquire WindowDC, Acquire MfcDC, Acquire SaveDC,
                ErrorOccurred (Str ValueError)]
               @ released w [SaveDC, MfcDC, WindowDC]
         \<and> (releases_ok w \<longrightarrow>
               trace (run w monitor_config n)
                 = [Acquire WindowDC, Acquire MfcDC, Acquire SaveDC,
                    ErrorOccurred (Str ValueError),
                    Release SaveDC, Release MfcDC, Release WindowDC])
         \<and> caps (run w monitor_config n) = []
         \<and> bmp (run w monitor_config n) = None"
proof -
  note body = try_body_def seq_def locate_def get_window_dc_def create_dc_from_handle_def
    create_compatible_dc_def compute_box_def bounding_box_def get_monitors_def py_min_def
    handler_def init_def emit_def truthy_def
  have b: "bounding_box (get_monitors (displays w)) = Inl ValueError"
    using assms(1) by (simp add: bounding_box_def get_monitors_def py_min_def)
  have c: "caps (run w monitor_config n) = []"
    using assms by (simp add: run_def run_result_def body)
  have m: "bmp (run w monitor_config n) = None"
    using assms by (simp add: run_bmp body)
  have d: "trace (run w monitor_config n)
             = [Acquire WindowDC, Acquire MfcDC, Acquire SaveDC, ErrorOccurred (Str ValueError)]
               @ released w [SaveDC, MfcDC, WindowDC]"
    using assms by (simp add: run_def run_result_def finally_block_trace due_def body)
  from b c m d show ?thesis
    by (simp add: releases_ok_def)
qed

theorem no_monitors_witness:
  "displays (example_world\<lparr>displays := []\<rparr>) = []
   \<and> find_workerw (example_world\<lparr>displays := []\<rparr>) = Inr (Some 11)
   \<and> truthy (Some 11)
   \<and> trace (run (example_world\<lparr>displays := []\<rparr>) [(''m1'', example_config ''a.mp4'')] 3)
       = [Acquire WindowDC, Acquire MfcDC, Acquire SaveDC,
          ErrorOccurred (Str ValueError),
          Release SaveDC, Release MfcDC, Release WindowDC]"
proof -
  have a: "displays (example_world\<lparr>displays := []\<rparr>) = []"
    by simp
  have b: "find_workerw (example_world\<lparr>displays := []\<rparr>) = Inr (Some 11)"
    by code_simp
  have c: "truthy (Some 11)"
    by (simp add: truthy_def)
  have d: "\<not> fails (example_world\<lparr>displays := []\<rparr>) GetWindowDC"
    "\<not> fails (example_world\<lparr>displays := []\<rparr>) CreateDCFromHandle"
    "\<not> fails (example_world\<lparr>displays := []\<rparr>) CreateCompatibleDC"
    "window_dc (example_world\<lparr>displays := []\<rparr>) \<noteq> 0"
    by (simp_all add: example_world_def)
  have e: "releases_ok (example_world\<lparr>displays := []\<rparr>)"
    by (simp add: releases_ok_def example_world_def)
  from no_monitors [OF a b c d, of "[(''m1'', example_config ''a.mp4'')]" 3] a b c e
  show ?thesis by (simp add: releases_ok_def)
qed

text \<open>
  The claim as written fails: with no display the bounding box is not a rectangle of
  width and height zero but an exception, and the session reports it as an error.
\<close>

theorem no_monitors_counterexample:
  "bounding_box (get_monitors (displays (example_world\<lparr>displays := []\<rparr>))) = Inl ValueError
   \<and> reported (trace (run (example_world\<lparr>displays := []\<rparr>)
                        [(''m1'', example_config ''a.mp4'')] 3))
       = [Str ValueError]"
  by code_simp

subsection \<open>Release of the video sources\<close>

lemma keys_dict_set: "fst ` set (dict_set kvs k v) = insert k (fst ` set kvs)"
proof (induction kvs)
  case Nil
  show ?case by simp
next
  case (Cons a kvs)
  obtain k' v' where a: "a = (k', v')" by (cases a)
  show ?case
  proof (cases "k' = k")
    case True
    then show ?thesis by (simp add: a)
  next
    case False
    with Cons.IH show ?thesis by (simp add: a insert_commute)
  qed
qed

lemma distinct_dict_set:
  "distinct (map fst kvs) \<Longrightarrow> distinct (map fst (dict_set kvs k v))"
proof (induction kvs)
  case Nil
  show ?case by simp
next
  case (Cons a kvs)
  obtain k' v' where a: "a = (k', v')" by (cases a)
  from Cons.prems have d: "distinct (map fst kvs)" and n: "k' \<notin> fst ` set kvs"
    by (simp_all add: a)
  show ?case
  proof (cases "k' = k")
    case True
    with d n show ?thesis by (simp add: a)
  next
    case False
    with d n Cons.IH show ?thesis by (simp add: a keys_dict_set)
  qed
qed

lemma open_sources_distinct:
  "distinct (map fst (caps st)) \<Longrightarrow> distinct (map fst (caps (snd (open_sources w cfg st))))"
proof (induction cfg arbitrary: st)
  case Nil
  then show ?case by simp
next
  case (Cons a cfg)
  obtain i c where a: "a = (i, c)" by (cases a)
  show ?case
    using Cons.prems
    by (cases "video_path c"; cases "VideoCapture w (the (video_path c))";
        cases "monitor_info c"; cases "the (video_path c) = []")
       (simp_all add: a distinct_dict_set Cons.IH)
qed



lemma open_sources_keys_in:
  assumes "fst ` set (caps st) \<subseteq> A" and "set (valid_keys w cfg) \<subseteq> A"
  shows "fst ` set (caps (snd (open_sources w cfg st))) \<subseteq> A"
  using assms
proof (induction cfg arbitrary: st)
  case Nil
  then show ?case by simp
next
  case (Cons a cfg)
  obtain i c where a: "a = (i, c)" by (cases a)
  have "set (valid_keys w cfg) \<subseteq> set (valid_keys w (a # cfg))"
    by (cases "valid_assignment w c") (simp_all add: valid_keys_def a subset_insertI)
  with Cons.prems(2) have vk: "set (valid_keys w cfg) \<subseteq> A"
    by blast
  have step: "fst ` set (caps (snd (open_sources w cfg st'))) \<subseteq> A"
    if "fst ` set (caps st') \<subseteq> A" for st'
    using that vk by (rule Cons.IH)
  note here = Cons.prems(1)
  show ?case
  proof (cases "video_path c")
    case None
    with here show ?thesis by (simp add: a step)
  next
    case (Some path)
    show ?thesis
    proof (cases "path = []")
      case True
      with Some here show ?thesis by (simp add: a step)
    next
      case False
      show ?thesis
      proof (cases "VideoCapture w path")
        case None
        with Some False here show ?thesis by (simp add: a step)
      next
        case cp: (Some cp)
        from Some False cp have "valid_assignment w c"
          by (simp add: valid_assignment_def)
        with Cons.prems(2) have iA: "i \<in> A"
          by (simp add: valid_keys_def a)
        show ?thesis
        proof (cases "monitor_info c")
          case None
          with Some False cp here show ?thesis by (simp add: a)
        next
          case m: (Some m)
          with Some False cp here iA show ?thesis
            by (simp add: a step keys_dict_set)
        qed
      qed
    qed
  qed
qed

lemma open_sources_keys_all:
  assumes "list_all (\<lambda>(i, c). valid_assignment w c \<longrightarrow> monitor_info c \<noteq> None) cfg"
  shows "fst ` set (caps (snd (open_sources w cfg st)))
           = fst ` set (caps st) \<union> set (valid_keys w cfg)"
  using assms
proof (induction cfg arbitrary: st)
  case Nil
  then show ?case by (simp add: valid_keys_def)
next
  case (Cons a cfg)
  obtain i c where a: "a = (i, c)" by (cases a)
  from Cons.prems have rest:
    "list_all (\<lambda>(i, c). valid_assignment w c \<longrightarrow> monitor_info c \<noteq> None) cfg"
    and mi: "valid_assignment w c \<Longrightarrow> monitor_info c \<noteq> None"
    by (simp_all add: a)
  note step = Cons.IH [OF rest]
  have skip: "valid_keys w (a # cfg) = valid_keys w cfg" if "\<not> valid_assignment w c"
    using that by (simp add: valid_keys_def a)
  have take: "valid_keys w (a # cfg) = i # valid_keys w cfg" if "valid_assignment w c"
    using that by (simp add: valid_keys_def a)
  show ?case
  proof (cases "video_path c")
    case None
    then have "\<not> valid_assignment w c" by (simp add: valid_assignment_def)
    with None show ?thesis by (simp add: a step skip [unfolded a])
  next
    case (Some path)
    show ?thesis
    proof (cases "path = []")
      case True
      with Some have "\<not> valid_assignment w c" by (simp add: valid_assignment_def)
      with Some True show ?thesis by (simp add: a step skip [unfolded a])
    next
      case False
      show ?thesis
      proof (cases "VideoCapture w path")
        case None
        with Some have "\<not> valid_assignment w c" by (simp add: valid_assignment_def)
        with Some False None show ?thesis by (simp add: a step skip [unfolded a])
      next
        case cp: (Some cp)
        from Some False cp have v: "valid_assignment w c"
          by (simp add: valid_assignment_def)
        with mi obtain m where m: "monitor_info c = Some m" by auto
        from Some False cp m show ?thesis
          by (simp add: a step take [OF v, unfolded a] keys_dict_set)
      qed
    qed
  qed
qed


lemma grows_updates_dcs [simp]:
  "grows Q st (st'\<lparr>worker_w := a\<rparr>) = grows Q st st'"
  "grows Q st (st'\<lparr>hwnd_dc := b\<rparr>) = grows Q st st'"
  "grows Q st (st'\<lparr>mfc_dc := c\<rparr>) = grows Q st st'"
  "grows Q st (st'\<lparr>save_dc := d\<rparr>) = grows Q st st'"
  "grows Q st (st'\<lparr>bmp := e\<rparr>) = grows Q st st'"
  "grows Q st (st'\<lparr>box := f\<rparr>) = grows Q st st'"
  by (simp_all add: grows_def)

lemma startup_caps [simp]:
  "caps (snd (locate w st)) = caps st"
  "caps (snd (get_window_dc w st)) = caps st"
  "caps (snd (create_dc_from_handle w st)) = caps st"
  "caps (snd (create_compatible_dc w st)) = caps st"
  "caps (snd (compute_box w st)) = caps st"
  "caps (snd (create_bitmap w st)) = caps st"
  by (simp_all add: locate_def get_window_dc_def create_dc_from_handle_def
      create_compatible_dc_def compute_box_def create_bitmap_def split: sum.splits)

lemma startup_grows:
  "grows body_event st (snd (locate w st))"
  "grows body_event st (snd (get_window_dc w st))"
  "grows body_event st (snd (create_dc_from_handle w st))"
  "grows body_event st (snd (create_compatible_dc w st))"
  "grows body_event st (snd (compute_box w st))"
  "grows body_event st (snd (create_bitmap w st))"
  by (simp_all add: locate_def get_window_dc_def create_dc_from_handle_def
      create_compatible_dc_def compute_box_def create_bitmap_def grows_emit split: sum.splits)

lemma seq_grows:
  assumes "\<And>s. grows Q s (snd (f s))" and "\<And>s. grows Q s (snd (g s))"
  shows "grows Q st (snd (seq f g st))"
proof (cases "fst (f st) = Normal")
  case True
  have "grows Q st (snd (g (snd (f st))))"
    using assms(1) assms(2) by (rule grows_trans)
  with True show ?thesis by (simp add: snd_seq)
next
  case False
  with assms(1) show ?thesis by (simp add: snd_seq)
qed

lemma try_body_grows: "grows body_event st (snd (try_body w cfg n st))"
proof -
  have o: "grows body_event s (snd (open_sources w cfg s))" for s
    using open_sources_grows
  proof (rule grows_mono)
    fix e show "open_event e \<Longrightarrow> body_event e" by (cases e) simp_all
  qed
  have l: "grows body_event s (snd (playback_loop w k n s))" for s k
    using playback_loop_grows
  proof (rule grows_mono)
    fix e show "tick_event e \<Longrightarrow> body_event e" by (cases e) simp_all
  qed
  show ?thesis
    unfolding try_body_def
    by (intro seq_grows startup_grows o l)
qed

lemma playback_loop_key_set [simp]:
  "fst ` set (caps (snd (playback_loop w k n st))) = fst ` set (caps st)"
  unfolding set_map [symmetric] by (simp only: playback_loop_keys)

lemma try_body_keys:
  "distinct (map fst (caps (snd (try_body w cfg n (init w)))))
   \<and> fst ` set (caps (snd (try_body w cfg n (init w)))) \<subseteq> set (valid_keys w cfg)"
proof -
  have d: "distinct (map fst (caps (snd (open_sources w cfg s))))" if "caps s = []" for s
    using that by (simp add: open_sources_distinct)
  have k: "fst ` set (caps (snd (open_sources w cfg s))) \<subseteq> set (valid_keys w cfg)"
    if "caps s = []" for s
    using that by (intro open_sources_keys_in) simp_all
  have i: "caps (init w) = []" by (simp add: init_def)
  show ?thesis
    unfolding try_body_def
    by (simp add: snd_seq d k i)
qed

lemma handler_caps [simp]: "caps (handler r) = caps (snd r)"
  by (cases r) (simp add: handler_def split: outcome.splits)

lemma handler_grows: "grows body_event (snd r) (handler r)"
  by (cases r) (simp add: handler_def grows_emit split: outcome.splits)

lemma count_list_distinct: "distinct xs \<Longrightarrow> count_list xs x = (if x \<in> set xs then 1 else 0)"
  by (induction xs) auto

lemma count_release_cap_map:
  "count_list (map (\<lambda>c. ReleaseCap (fst c)) cs) (ReleaseCap i) = count_list (map fst cs) i"
  by (induction cs) simp_all

lemma finally_block_release_caps:
  "count_list (trace (snd (finally_block w st))) (ReleaseCap i)
     = count_list (trace st) (ReleaseCap i) + count_list (map fst (caps st)) i"
  by (simp add: finally_block_trace count_release_cap_map)

text \<open>
  C3, as the code has it. At the end of every session \<^verbatim>\<open>release\<close> is called exactly
  once on each source in the table \<^verbatim>\<open>caps\<close> and on nothing else. Only assignments
  whose path opened get into the table: a source whose open fails is left out of the
  session, and \<^verbatim>\<open>release\<close> is never called on it (the keys of the configuration
  being distinct, as those of a dictionary are). When the start-up succeeds and every
  valid assignment carries its monitor geometry, the table holds exactly the valid
  assignments, so each source that opened is released exactly once.
\<close>

theorem sources_released:
  "count_list (trace (run w monitor_config n)) (ReleaseCap i)
     = (if i \<in> fst ` set (caps (run w monitor_config n)) then 1 else 0)
   \<and> fst ` set (caps (run w monitor_config n)) \<subseteq> set (valid_keys w monitor_config)
   \<and> (distinct (map fst monitor_config) \<and> (i, c) \<in> set monitor_config
        \<and> \<not> valid_assignment w c
        \<longrightarrow> count_list (trace (run w monitor_config n)) (ReleaseCap i) = 0)
   \<and> (startup_ok w
        \<and> list_all (\<lambda>(i, c). valid_assignment w c \<longrightarrow> monitor_info c \<noteq> None) monitor_config
        \<longrightarrow> fst ` set (caps (run w monitor_config n)) = set (valid_keys w monitor_config))"
proof -
  let ?b = "try_body w monitor_config n (init w)"
  let ?R = "run w monitor_config n"
  have "grows body_event (init w) (handler ?b)"
    using try_body_grows handler_grows by (rule grows_trans)
  then have "count_list (trace (handler ?b)) (ReleaseCap i) = count_list (trace (init w)) (ReleaseCap i)"
    by (rule grows_count) simp
  then have z: "count_list (trace (handler ?b)) (ReleaseCap i) = 0"
    by (simp add: init_def)
  have c: "caps ?R = caps (snd ?b)"
    by (simp add: run_def run_result_def)
  note k = try_body_keys [of w monitor_config n]
  have A: "count_list (trace ?R) (ReleaseCap i) = (if i \<in> fst ` set (caps ?R) then 1 else 0)"
    using k z count_list_distinct [of "map fst (caps (snd ?b))" i]
    by (simp add: c) (simp add: run_def run_result_def finally_block_release_caps)
  have B: "fst ` set (caps ?R) \<subseteq> set (valid_keys w monitor_config)"
    using k by (simp add: c)
  have C: "count_list (trace ?R) (ReleaseCap i) = 0"
    if "distinct (map fst monitor_config)" "(i, c) \<in> set monitor_config" "\<not> valid_assignment w c"
  proof -
    have "i \<notin> set (valid_keys w monitor_config)"
    proof
      assume "i \<in> set (valid_keys w monitor_config)"
      then obtain c' where c': "(i, c') \<in> set monitor_config" "valid_assignment w c'"
        by (auto simp: valid_keys_def)
      from that(1) c'(1) that(2) have "c' = c"
        by (rule eq_key_imp_eq_value)
      with c'(2) that(3) show False by simp
    qed
    with A B show ?thesis by auto
  qed
  have D: "fst ` set (caps ?R) = set (valid_keys w monitor_config)"
    if "startup_ok w"
      "list_all (\<lambda>(i, c). valid_assignment w c \<longrightarrow> monitor_info c \<noteq> None) monitor_config"
  proof -
    from try_body_started [OF that(1)] obtain r b where
      t: "?b = seq (open_sources w monitor_config) (playback_loop w 0 n) (started w r b)"
      by blast
    have "caps (started w r b) = []"
      by (simp add: started_def)
    then show ?thesis
      by (simp add: c t snd_seq open_sources_keys_all [OF that(2)])
  qed
  from A B C D show ?thesis by blast
qed

theorem sources_released_witness:
  "distinct (map fst [(''m1'', example_config ''a.mp4''), (''m2'', example_config ''b.mp4'')])
   \<and> (''m2'', example_config ''b.mp4'')
        \<in> set [(''m1'', example_config ''a.mp4''), (''m2'', example_config ''b.mp4'')]
   \<and> \<not> valid_assignment example_world (example_config ''b.mp4'')
   \<and> startup_ok example_world
   \<and> list_all (\<lambda>(i, c). valid_assignment example_world c \<longrightarrow> monitor_info c \<noteq> None)
        [(''m1'', example_config ''a.mp4''), (''m2'', example_config ''b.mp4'')]
   \<and> count_list (trace (run example_world
        [(''m1'', example_config ''a.mp4''), (''m2'', example_config ''b.mp4'')] 2))
        (ReleaseCap ''m2'') = 0
   \<and> count_list (trace (run example_world
        [(''m1'', example_config ''a.mp4''), (''m2'', example_config ''b.mp4'')] 2))
        (ReleaseCap ''m1'') = 1"
proof -
  let ?cfg = "[(''m1'', example_config ''a.mp4''), (''m2'', example_config ''b.mp4'')]"
  have h1: "distinct (map fst ?cfg)"
    by simp
  have h2: "(''m2'', example_config ''b.mp4'') \<in> set ?cfg"
    by simp
  have h3: "\<not> valid_assignment example_world (example_config ''b.mp4'')"
    by code_simp
  have h4: "startup_ok example_world"
    by code_simp
  have h5: "list_all (\<lambda>(i, c). valid_assignment example_world c \<longrightarrow> monitor_info c \<noteq> None) ?cfg"
    by code_simp
  have k: "valid_keys example_world ?cfg = [''m1'']"
    by code_simp
  from sources_released [of example_world ?cfg 2 "''m2''" "example_config ''b.mp4''"] h1 h2 h3
  have a: "count_list (trace (run example_world ?cfg 2)) (ReleaseCap ''m2'') = 0"
    by blast
  from sources_released [of example_world ?cfg 2 "''m1''" "example_config ''a.mp4''"] h4 h5
  have "count_list (trace (run example_world ?cfg 2)) (ReleaseCap ''m1'')
          = (if ''m1'' \<in> set (valid_keys example_world ?cfg) then 1 else 0)"
    by presburger
  then have b: "count_list (trace (run example_world ?cfg 2)) (ReleaseCap ''m1'') = 1"
    by (simp add: k)
  from h1 h2 h3 h4 h5 a b show ?thesis
    by blast
qed

text \<open>
  The claim as written fails: for a source whose open fails the decoder's
  \<^verbatim>\<open>release\<close> is called not once but never.
\<close>

theorem sources_released_counterexample:
  "VideoCapture example_world ''b.mp4'' = None
   \<and> count_list (trace (run example_world [(''m1'', example_config ''b.mp4'')] 3))
        (ReleaseCap ''m1'') = 0
   \<and> trace (run example_world [(''m1'', example_config ''b.mp4'')] 3)
       = [Acquire WindowDC, Acquire MfcDC, Acquire SaveDC, Acquire Bitmap,
          Open ''m1'' ''b.mp4'' False,
          ErrorOccurred (Text ''Could not open video: b.mp4''),
          Release SaveDC, Release MfcDC, Release WindowDC, Release Bitmap]"
  by code_simp

subsection \<open>What one tick does\<close>

lemma blit_fields [simp]:
  "fps_var (blit w i d c f st) = fps_var st"
  "caps (blit w i d c f st) = caps st"
  "box (blit w i d c f st) = box st"
  "desktop (blit w i d c f st) = desktop st"
  by (simp_all add: blit_def Let_def)

lemma blit_trace:
  "trace (blit w i d c f st)
     = trace st @ [Blit i (mon_x (info d) - min_x (box st)) (mon_y (info d) - min_y (box st))
                     (mon_width (info d)) (mon_height (info d))
                     (int (frame_width c)) (int (frame_height c)) (cvtColor f)
                     (create_bmi_header (int (frame_width c)) (int (frame_height c)))]"
  by (simp add: blit_def Let_def)

lemma blit_surface:
  "surface (blit w i d c f st) (px, py)
     = (if dest_rect (box st) (info d) (px, py)
        then stretch w (cvtColor f) (int (frame_width c)) (int (frame_height c))
               (mon_width (info d)) (mon_height (info d))
               (px - (mon_x (info d) - min_x (box st)), py - (mon_y (info d) - min_y (box st)))
        else surface st (px, py))"
  by (simp add: blit_def Let_def StretchDIBits_def dest_rect_def)

lemma draw_source_hit:
  assumes "cap_read (cap d) = (Some f, c1)"
  shows "draw_source w i d st
           = (c1, blit w i d c1 f (emit (Read i True) (st\<lparr>fps_var := Some (data_fps d)\<rparr>)))"
  using assms by (simp add: draw_source_def Let_def)

lemma draw_source_restart:
  assumes "cap_read (cap d) = (None, c1)"
    and "cap_read (cap_set_pos_frames c1 0) = (Some f, c3)"
  shows "draw_source w i d st
           = (c3, blit w i d c3 f
                    (emit (Read i True) (emit (Seek i 0) (emit (Read i False)
                       (st\<lparr>fps_var := Some (data_fps d)\<rparr>)))))"
  using assms by (simp add: draw_source_def Let_def)

lemma draw_source_skip:
  assumes "cap_read (cap d) = (None, c1)"
    and "cap_read (cap_set_pos_frames c1 0) = (None, c3)"
  shows "draw_source w i d st
           = (c3, emit (Read i False) (emit (Seek i 0) (emit (Read i False)
                    (st\<lparr>fps_var := Some (data_fps d)\<rparr>))))"
  using assms by (simp add: draw_source_def Let_def)

lemma draw_source_fps [simp]: "fps_var (snd (draw_source w i d st)) = Some (data_fps d)"
  by (simp add: draw_source_def Let_def split: prod.splits option.splits)

lemma draw_source_box [simp]: "box (snd (draw_source w i d st)) = box st"
  by (simp add: draw_source_def Let_def split: prod.splits option.splits)

lemma draw_source_outside:
  "\<not> dest_rect (box st) (info d) (px, py)
     \<Longrightarrow> surface (snd (draw_source w i d st)) (px, py) = surface st (px, py)"
  by (simp add: draw_source_def Let_def blit_surface split: prod.splits option.splits)

lemma draw_sources_fps:
  "cs \<noteq> [] \<Longrightarrow> fps_var (snd (draw_sources w cs st)) = Some (data_fps (snd (last cs)))"
proof (induction cs arbitrary: st)
  case Nil
  then show ?case by simp
next
  case (Cons a cs)
  obtain i d where a: "a = (i, d)" by (cases a)
  show ?case
  proof (cases "cs = []")
    case True
    then show ?thesis by (simp add: a snd_draw_sources_Cons del: draw_sources.simps(2))
  next
    case False
    with Cons.IH show ?thesis by (simp add: a snd_draw_sources_Cons del: draw_sources.simps(2))
  qed
qed

lemma draw_sources_box [simp]: "box (snd (draw_sources w cs st)) = box st"
proof (induction cs arbitrary: st)
  case Nil
  show ?case by simp
next
  case (Cons a cs)
  obtain i d where a: "a = (i, d)" by (cases a)
  show ?case
    unfolding a snd_draw_sources_Cons by (simp add: Cons.IH)
qed

lemma draw_sources_outside:
  assumes "box st = b"
    and "list_all (\<lambda>(i, d). \<not> dest_rect b (info d) (px, py)) cs"
  shows "surface (snd (draw_sources w cs st)) (px, py) = surface st (px, py)"
  using assms
proof (induction cs arbitrary: st)
  case Nil
  show ?case by simp
next
  case (Cons a cs)
  obtain i d where a: "a = (i, d)" by (cases a)
  from Cons.prems have h: "\<not> dest_rect (box st) (info d) (px, py)"
    and t: "list_all (\<lambda>(i, d). \<not> dest_rect b (info d) (px, py)) cs"
    by (simp_all add: a)
  have "box (snd (draw_source w i d st)) = b"
    using Cons.prems(1) by simp
  from Cons.IH [OF this t] draw_source_outside [OF h] show ?case
    unfolding a snd_draw_sources_Cons by simp
qed


lemma grows_new_events:
  assumes "grows Q st st'"
  shows "trace st' = trace st @ new_events st st'" and "list_all Q (new_events st st')"
  using assms by (auto simp: grows_def new_events_def)

lemma blit_draws: "grows draw_event st st' \<Longrightarrow> grows draw_event st (blit w i d c f st')"
  by (simp add: blit_def Let_def grows_emit)

lemma draw_source_draws: "grows draw_event st (snd (draw_source w i d st))"
  by (simp add: draw_source_def Let_def blit_draws grows_emit split: prod.splits option.splits)

lemma draw_sources_draws: "grows draw_event st (snd (draw_sources w cs st))"
proof (induction cs arbitrary: st)
  case Nil
  show ?case by simp
next
  case (Cons a cs)
  obtain i d where a: "a = (i, d)" by (cases a)
  have "grows draw_event st (snd (draw_source w i d st))"
    by (rule draw_source_draws)
  then show ?case
    unfolding a snd_draw_sources_Cons by (rule grows_trans) (rule Cons.IH)
qed

lemma draw_draws: "grows draw_event st (draw w st)"
  by (simp add: draw_eq draw_sources_draws)

lemma draw_fields [simp]:
  "box (draw w st) = box st"
  "desktop (draw w st) = desktop (snd (draw_sources w (caps st) st))"
  "surface (draw w st) = surface (snd (draw_sources w (caps st) st))"
  "fps_var (draw w st) = fps_var (snd (draw_sources w (caps st) st))"
  by (simp_all add: draw_eq)

lemma clear_fields [simp]:
  "box (clear st) = box st"
  "fps_var (clear st) = fps_var st"
  "desktop (clear st) = desktop st"
  "trace (clear st) = trace st @ [Clear 0 0 (total_width (box st)) (total_height (box st))]"
  by (simp_all add: clear_def)

lemma clear_surface:
  "surface (clear st) (px, py)
     = (if 0 \<le> px \<and> px < total_width (box st) \<and> 0 \<le> py \<and> py < total_height (box st)
        then black else surface st (px, py))"
  by (simp add: clear_def FillSolidRect_def)

lemma present_fields [simp]:
  "box (present w k st) = box st"
  "fps_var (present w k st) = fps_var st"
  "surface (present w k st) = surface st"
  "trace (present w k st)
     = trace st @ Present (total_width (box st)) (total_height (box st)) (\<not> BitBlt_raises w k)
                  # (if BitBlt_raises w k then [Print] else [])"
  by (simp_all add: present_def)

lemma present_desktop:
  "desktop (present w k st) (px, py)
     = (if \<not> BitBlt_raises w k \<and> 0 \<le> px \<and> px < total_width (box st)
            \<and> 0 \<le> py \<and> py < total_height (box st)
        then surface st (px, py) else desktop st (px, py))"
  by (simp add: present_def BitBlt_def)

lemma pace_fields [simp]:
  "box (snd (pace w k st)) = box st"
  "surface (snd (pace w k st)) = surface st"
  "desktop (snd (pace w k st)) = desktop st"
  "trace (snd (pace w k st)) = trace st @ pace_events w k (fps_var st)"
  by (simp_all add: pace_def pace_events_def Let_def split: option.splits)

lemma pace_outcome:
  "fst (pace w k st)
     = (case fps_var st of
          None \<Rightarrow> Raised (UnboundLocalError ''fps'')
        | Some f \<Rightarrow> if f = 0 then Raised ZeroDivisionError else Normal)"
  by (simp add: pace_def Let_def split: option.splits)

lemma tick_new_events:
  "new_events st (snd (tick w k st))
     = Clear 0 0 (total_width (box st)) (total_height (box st))
       # new_events (clear st) (draw w (clear st))
       @ Present (total_width (box st)) (total_height (box st)) (\<not> BitBlt_raises w k)
       # (if BitBlt_raises w k then [Print] else [])
       @ pace_events w k (fps_var (draw w (clear st)))"
proof -
  have "trace (draw w (clear st)) = trace (clear st) @ new_events (clear st) (draw w (clear st))"
    using draw_draws by (rule grows_new_events)
  then have "trace (snd (tick w k st))
               = trace st @ Clear 0 0 (total_width (box st)) (total_height (box st))
                 # new_events (clear st) (draw w (clear st))
                 @ Present (total_width (box st)) (total_height (box st)) (\<not> BitBlt_raises w k)
                 # (if BitBlt_raises w k then [Print] else [])
                 @ pace_events w k (fps_var (draw w (clear st)))"
    by (simp add: tick_def del: draw_fields(4))
  then show ?thesis
    by (simp add: new_events_def)
qed

lemma draw_fps:
  "caps st \<noteq> [] \<Longrightarrow> fps_var (draw w (clear st)) = Some (data_fps (snd (last (caps st))))"
  using draw_sources_fps [of "caps st" w "clear st"] by simp


lemma filter_none: "list_all Q xs \<Longrightarrow> (\<And>e. Q e \<Longrightarrow> \<not> P e) \<Longrightarrow> filter P xs = []"
  by (induction xs) auto

lemma draw_no_wait: "filter is_wait_key (new_events (clear st) (draw w (clear st))) = []"
proof (rule filter_none)
  show "list_all draw_event (new_events (clear st) (draw w (clear st)))"
    using draw_draws by (rule grows_new_events)
  show "\<not> is_wait_key e" if "draw_event e" for e
    using that by (cases e) simp_all
qed

lemma tick_trace: "trace (snd (tick w k st)) = trace st @ new_events st (snd (tick w k st))"
  using tick_grows by (rule grows_new_events)

text \<open>
  C7, as the code has it. In a tick of the running loop the variable \<^verbatim>\<open>fps\<close> ends
  as the rate of the last source of the table, whether that source was drawn or
  skipped. When that rate is not zero the tick ends normally, its last event is the one
  pacing call \<^verbatim>\<open>cv2.waitKey(int(1000 / fps))\<close>, whose argument is \<open>1000 / rate\<close>
  truncated to whole milliseconds, and there is no other pacing call in the tick: one
  shared rate, no pacing per source. When that rate is zero the division raises and
  the tick ends without a pacing call.
\<close>

theorem pacing:
  assumes "caps st \<noteq> []"
  shows "(data_fps (snd (last (caps st))) \<noteq> 0 \<longrightarrow>
            fst (tick w k st) = Normal
            \<and> last (trace (snd (tick w k st)))
                = WaitKey (py_int (1000 / data_fps (snd (last (caps st)))))
            \<and> filter is_wait_key (new_events st (snd (tick w k st)))
                = [WaitKey (py_int (1000 / data_fps (snd (last (caps st)))))])
         \<and> (data_fps (snd (last (caps st))) = 0 \<longrightarrow>
              fst (tick w k st) = Raised ZeroDivisionError
              \<and> filter is_wait_key (new_events st (snd (tick w k st))) = [])"
proof -
  let ?f = "data_fps (snd (last (caps st)))"
  have fv: "fps_var (draw w (clear st)) = Some ?f"
    using assms by (rule draw_fps)
  have out: "fst (tick w k st) = (if ?f = 0 then Raised ZeroDivisionError else Normal)"
    using fv by (simp add: tick_def pace_outcome del: draw_fields(4))
  have ev: "filter is_wait_key (new_events st (snd (tick w k st)))
              = (if ?f = 0 then [] else [WaitKey (py_int (1000 / ?f))])"
    by (simp add: tick_new_events fv draw_no_wait pace_events_def del: draw_fields(4))
  have la: "last (trace (snd (tick w k st))) = WaitKey (py_int (1000 / ?f))" if "?f \<noteq> 0"
    using that by (simp add: tick_trace tick_new_events fv pace_events_def del: draw_fields(4))
  from out ev la show ?thesis by simp
qed

theorem pacing_witness:
  "caps example_state \<noteq> []
   \<and> data_fps (snd (last (caps example_state))) \<noteq> 0
   \<and> fst (tick example_world 0 example_state) = Normal
   \<and> last (trace (snd (tick example_world 0 example_state))) = WaitKey 33"
proof -
  have a: "caps example_state \<noteq> []"
    by (simp add: example_state_def)
  have b: "data_fps (snd (last (caps example_state))) = 30"
    by (simp add: example_state_def)
  have c: "py_int (1000 / 30) = 33"
    by code_simp
  from pacing [OF a, of example_world 0] a b c show ?thesis
    by simp
qed

text \<open>
  The claim as written fails: at the default rate 30 the tick ends with a wait of 33
  milliseconds, which is not \<open>1000 / 30\<close>.
\<close>

theorem pacing_counterexample:
  "trace (run example_world [(''m1'', example_config ''a.mp4'')] 1)
     = [Acquire WindowDC, Acquire MfcDC, Acquire SaveDC, Acquire Bitmap,
        Open ''m1'' ''a.mp4'' True, FpsUpdated 25,
        Clear 0 0 4 2, Read ''m1'' True,
        Blit ''m1'' 0 0 4 2 1 1 [(1, 1, 1, 255)] [40, 1, - 1, 1, 32, 0, 4, 0, 0, 0, 0],
        Present 4 2 True, WaitKey 33,
        ReleaseCap ''m1'', Release SaveDC, Release MfcDC, Release WindowDC, Release Bitmap]
   \<and> fps (example_config ''a.mp4'') = Some 30
   \<and> rat_of_int 33 \<noteq> 1000 / 30"
  by code_simp


subsection \<open>Reading, drawing and presenting within a tick\<close>

lemma new_events_same [simp]: "new_events st st = []"
  by (simp add: new_events_def)

lemma new_events_emit:
  "trace st' = trace st @ evs \<Longrightarrow> new_events st (emit e st') = evs @ [e]"
  by (simp add: new_events_def)

lemma new_events_trans:
  assumes "grows Q st st'" and "grows Q st' st''"
  shows "new_events st st'' = new_events st st' @ new_events st' st''"
  using assms by (auto simp: grows_def new_events_def)

lemma read_frame_draw_source:
  "draw_source w i d st
     = (case read_frame (cap d) of
          Some (f, c') \<Rightarrow>
            (c', blit w i d c' f
                   ((if fst (cap_read (cap d)) = None
                     then emit (Read i True) \<circ> emit (Seek i 0) \<circ> emit (Read i False)
                     else emit (Read i True))
                      (st\<lparr>fps_var := Some (data_fps d)\<rparr>)))
        | None \<Rightarrow>
            (snd (cap_read (cap_set_pos_frames (snd (cap_read (cap d))) 0)),
             emit (Read i False) (emit (Seek i 0) (emit (Read i False)
               (st\<lparr>fps_var := Some (data_fps d)\<rparr>)))))"
  by (simp add: draw_source_def read_frame_def Let_def split: prod.splits option.splits)

lemma draw_source_none:
  assumes "read_frame (cap d) = None"
  shows "surface (snd (draw_source w i d st)) = surface st"
    and "new_events st (snd (draw_source w i d st)) = [Read i False, Seek i 0, Read i False]"
  using assms by (simp_all add: read_frame_draw_source new_events_def)

lemma draw_source_some:
  assumes "read_frame (cap d) = Some (f, c')"
  shows "fst (draw_source w i d st) = c'"
    and "surface (snd (draw_source w i d st)) (px, py)
           = (if dest_rect (box st) (info d) (px, py)
              then stretch w (cvtColor f) (int (frame_width c')) (int (frame_height c'))
                     (mon_width (info d)) (mon_height (info d))
                     (px - (mon_x (info d) - min_x (box st)),
                      py - (mon_y (info d) - min_y (box st)))
              else surface st (px, py))"
    and "last (trace (snd (draw_source w i d st)))
           = Blit i (mon_x (info d) - min_x (box st)) (mon_y (info d) - min_y (box st))
               (mon_width (info d)) (mon_height (info d))
               (int (frame_width c')) (int (frame_height c')) (cvtColor f)
               (create_bmi_header (int (frame_width c')) (int (frame_height c')))"
  using assms by (simp_all add: read_frame_draw_source blit_surface blit_trace)

lemma cap_read_fields [simp]:
  "frames (snd (cap_read c)) = frames c"
  "frame_width (snd (cap_read c)) = frame_width c"
  "frame_height (snd (cap_read c)) = frame_height c"
  "faults (snd (cap_read c)) = tl (faults c)"
  by (simp_all add: cap_read_def Let_def)

lemma cap_read_none: "fst (cap_read c) = None \<longleftrightarrow> faulty c \<or> length (frames c) \<le> pos c"
  by (auto simp: cap_read_def Let_def)

lemma cap_read_rewound:
  "cap_read (cap_set_pos_frames c 0)
     = (if faulty c \<or> frames c = [] then (None, c\<lparr>faults := tl (faults c), pos := 0\<rparr>)
        else (Some (hd (frames c)), c\<lparr>faults := tl (faults c), pos := 1\<rparr>))"
  by (cases "frames c") (simp_all add: cap_read_def cap_set_pos_frames_def faulty_def Let_def)

lemma faulty_cap_read [simp]: "faulty (snd (cap_read c)) = faulty (c\<lparr>faults := tl (faults c)\<rparr>)"
  by (simp add: faulty_def)

lemma read_frame_retry:
  assumes "fst (cap_read c) = None"
  shows "read_frame c
           = (if faulty (snd (cap_read c)) \<or> frames c = [] then None
              else Some (hd (frames c), c\<lparr>faults := tl (tl (faults c)), pos := 1\<rparr>))"
proof -
  obtain c1 where c1: "cap_read c = (None, c1)"
    using assms by (cases "cap_read c") simp
  have f: "frames c1 = frames c" "faults c1 = tl (faults c)"
    using cap_read_fields(1,4) [of c] by (simp_all add: c1)
  have p: "c1\<lparr>faults := tl (tl (faults c)), pos := n\<rparr>
             = c\<lparr>faults := tl (tl (faults c)), pos := n\<rparr>"
    for n
    using c1 by (auto simp: cap_read_def Let_def split: if_splits)
  show ?thesis
    using f by (simp add: read_frame_def c1 cap_read_rewound p)
qed

lemma draw_source_retry:
  assumes "fst (cap_read (cap d)) = None" and "frames (cap d) \<noteq> []"
    and "\<not> faulty (snd (cap_read (cap d)))"
  shows "new_events st (snd (draw_source w i d st))
           = [Read i False, Seek i 0, Read i True,
              Blit i (mon_x (info d) - min_x (box st)) (mon_y (info d) - min_y (box st))
                (mon_width (info d)) (mon_height (info d))
                (int (frame_width (cap d))) (int (frame_height (cap d)))
                (cvtColor (hd (frames (cap d))))
                (create_bmi_header (int (frame_width (cap d))) (int (frame_height (cap d))))]"
    and "pos (fst (draw_source w i d st)) = 1"
    and "frames (fst (draw_source w i d st)) = frames (cap d)"
proof -
  from assms
  have r: "read_frame (cap d)
             = Some (hd (frames (cap d)), (cap d)\<lparr>faults := tl (tl (faults (cap d))), pos := 1\<rparr>)"
    by (simp add: read_frame_retry)
  show "new_events st (snd (draw_source w i d st))
           = [Read i False, Seek i 0, Read i True,
              Blit i (mon_x (info d) - min_x (box st)) (mon_y (info d) - min_y (box st))
                (mon_width (info d)) (mon_height (info d))
                (int (frame_width (cap d))) (int (frame_height (cap d)))
                (cvtColor (hd (frames (cap d))))
                (create_bmi_header (int (frame_width (cap d))) (int (frame_height (cap d))))]"
    by (simp add: read_frame_draw_source r assms(1) blit_trace new_events_def)
  show "pos (fst (draw_source w i d st)) = 1"
    and "frames (fst (draw_source w i d st)) = frames (cap d)"
    by (simp_all add: read_frame_draw_source r)
qed

lemma read_frame_none:
  "read_frame c = None
     \<longleftrightarrow> fst (cap_read c) = None \<and> (faulty (snd (cap_read c)) \<or> frames c = [])"
proof (cases "fst (cap_read c)")
  case None
  then show ?thesis by (simp add: read_frame_retry)
next
  case (Some f)
  then obtain c1 where "cap_read c = (Some f, c1)"
    by (cases "cap_read c") simp
  then show ?thesis by (simp add: read_frame_def)
qed

lemma draw_source_reads:
  "Read i True \<in> set (new_events st (snd (draw_source w i d st)))
   \<or> Read i False \<in> set (new_events st (snd (draw_source w i d st)))"
  by (simp add: draw_source_def Let_def blit_trace new_events_def split: prod.splits option.splits)

lemma draw_sources_reads:
  assumes "(i, d) \<in> set cs"
  shows "Read i True \<in> set (new_events st (snd (draw_sources w cs st)))
         \<or> Read i False \<in> set (new_events st (snd (draw_sources w cs st)))"
  using assms
proof (induction cs arbitrary: st)
  case Nil
  then show ?case by simp
next
  case (Cons a cs)
  obtain j e where a: "a = (j, e)" by (cases a)
  let ?s1 = "snd (draw_source w j e st)"
  have split: "new_events st (snd (draw_sources w (a # cs) st))
                 = new_events st ?s1 @ new_events ?s1 (snd (draw_sources w cs ?s1))"
    unfolding a snd_draw_sources_Cons
    using draw_source_draws draw_sources_draws by (rule new_events_trans)
  show ?case
  proof (cases "(i, d) = (j, e)")
    case True
    with draw_source_reads [of j st w e] show ?thesis
      by (auto simp: split)
  next
    case False
    with Cons.prems have "(i, d) \<in> set cs" by (auto simp: a)
    from Cons.IH [OF this, of ?s1] show ?thesis
      by (auto simp: split)
  qed
qed


lemma draw_sources_none:
  "list_all (\<lambda>(i, d). read_frame (cap d) = None) cs
     \<Longrightarrow> surface (snd (draw_sources w cs st)) = surface st"
proof (induction cs arbitrary: st)
  case Nil
  show ?case by simp
next
  case (Cons a cs)
  obtain i d where a: "a = (i, d)" by (cases a)
  from Cons.prems have h: "read_frame (cap d) = None"
    and t: "list_all (\<lambda>(i, d). read_frame (cap d) = None) cs"
    by (simp_all add: a)
  show ?case
    unfolding a snd_draw_sources_Cons
    by (simp add: Cons.IH [OF t] draw_source_none(1) [OF h])
qed

lemma tick_surface: "surface (snd (tick w k st)) = surface (snd (draw_sources w (caps st) (clear st)))"
  by (simp add: tick_def)

lemma tick_desktop:
  assumes "0 \<le> px" "px < total_width (box st)" "0 \<le> py" "py < total_height (box st)"
    and "\<not> BitBlt_raises w k"
  shows "desktop (snd (tick w k st)) (px, py) = surface (snd (tick w k st)) (px, py)"
  using assms by (simp add: tick_def present_desktop)

lemma tick_draw_events:
  "new_events (clear st) (draw w (clear st))
     = new_events (clear st) (snd (draw_sources w (caps st) (clear st)))"
  by (simp add: new_events_def draw_eq)

lemma tick_reads:
  assumes "(i, d) \<in> set (caps st)"
  shows "Read i True \<in> set (new_events st (snd (tick w k st)))
         \<or> Read i False \<in> set (new_events st (snd (tick w k st)))"
  using draw_sources_reads [OF assms, of "clear st" w]
  by (auto simp: tick_new_events tick_draw_events simp del: draw_fields(4))

lemma tick_no_release: "ReleaseCap i \<notin> set (new_events st (snd (tick w k st)))"
proof
  assume r: "ReleaseCap i \<in> set (new_events st (snd (tick w k st)))"
  have "list_all tick_event (new_events st (snd (tick w k st)))"
    using tick_grows by (rule grows_new_events)
  with r have "tick_event (ReleaseCap i)"
    by (auto simp: list_all_iff)
  then show False by simp
qed

lemma tick_reads_key:
  assumes "i \<in> fst ` set (caps st)"
  shows "Read i True \<in> set (new_events st (snd (tick w k st)))
         \<or> Read i False \<in> set (new_events st (snd (tick w k st)))"
proof -
  from assms obtain d where "(i, d) \<in> set (caps st)" by auto
  then show ?thesis by (rule tick_reads)
qed

lemma tick_key_set: "fst ` set (caps (snd (tick w k st))) = fst ` set (caps st)"
  unfolding set_map [symmetric] by (simp only: tick_keys)

lemma playback_loop_continues:
  assumes "caps st \<noteq> []" and "fst (tick w k st) = Normal"
  shows "playback_loop w k (Suc n) st = playback_loop w (Suc k) n (snd (tick w k st))"
proof -
  from assms(2) obtain st' where "tick w k st = (Normal, st')"
    by (cases "tick w k st") simp
  with assms(1) show ?thesis by simp
qed

lemma playback_loop_first_tick:
  assumes "caps st \<noteq> []"
  shows "set (new_events st (snd (tick w k st)))
           \<subseteq> set (new_events st (snd (playback_loop w k (Suc n) st)))"
proof (cases "fst (tick w k st) = Normal")
  case True
  have "new_events st (snd (playback_loop w (Suc k) n (snd (tick w k st))))
          = new_events st (snd (tick w k st))
            @ new_events (snd (tick w k st)) (snd (playback_loop w (Suc k) n (snd (tick w k st))))"
    using tick_grows playback_loop_grows by (rule new_events_trans)
  with assms True show ?thesis
    by (simp add: snd_playback_loop_Suc del: playback_loop.simps(2))
next
  case False
  with assms show ?thesis
    by (simp add: snd_playback_loop_Suc del: playback_loop.simps(2))
qed

lemma next_tick_reads:
  assumes "(i, d) \<in> set (caps st)" and "fst (tick w k st) = Normal"
  shows "playback_loop w k (Suc (Suc n)) st
           = playback_loop w (Suc k) (Suc n) (snd (tick w k st))"
    and "i \<in> fst ` set (caps (snd (tick w k st)))"
    and "Read i True
           \<in> set (new_events (snd (tick w k st))
                   (snd (playback_loop w (Suc k) (Suc n) (snd (tick w k st)))))
         \<or> Read i False
           \<in> set (new_events (snd (tick w k st))
                   (snd (playback_loop w (Suc k) (Suc n) (snd (tick w k st)))))"
proof -
  let ?s1 = "snd (tick w k st)"
  from assms(1) have ne: "caps st \<noteq> []" by auto
  from assms(1) have "i \<in> fst ` set (caps st)" by force
  then show k1: "i \<in> fst ` set (caps ?s1)"
    by (simp only: tick_key_set)
  then have ne1: "caps ?s1 \<noteq> []" by auto
  show "playback_loop w k (Suc (Suc n)) st = playback_loop w (Suc k) (Suc n) ?s1"
    using ne assms(2) by (rule playback_loop_continues)
  from tick_reads_key [OF k1, of w "Suc k"] playback_loop_first_tick [OF ne1, of w "Suc k" n]
  show "Read i True \<in> set (new_events ?s1 (snd (playback_loop w (Suc k) (Suc n) ?s1)))
        \<or> Read i False \<in> set (new_events ?s1 (snd (playback_loop w (Suc k) (Suc n) ?s1)))"
    by (meson subsetD)
qed

text \<open>
  C6. When the read of a source fails, as it does at the end of the stream, the loop
  seeks to frame 0 and reads once more, and no third time. When the file has a frame
  (in particular when it has two or more) and the decoder does not fail on that second
  read, the frame it yields and the loop draws is the first frame of the file, and the
  decoder then stands at frame 1. When the second read fails as well, which for a file
  with frames is a failure of the decoder, the source is skipped: its events are the
  two failed reads around the seek, nothing is drawn and the surface is as before. A
  tick releases no source and keeps the keys of the table; when the tick ends without
  an exception and the loop is still running, \<^verbatim>\<open>playback_loop\<close> goes on with the
  next tick, and that tick reads the source again.
\<close>

theorem loop_restart:
  "(length (frames (cap d)) \<le> pos (cap d) \<longrightarrow> fst (cap_read (cap d)) = None)
   \<and> (fst (cap_read (cap d)) = None \<and> frames (cap d) \<noteq> [] \<and> \<not> faulty (snd (cap_read (cap d)))
        \<longrightarrow>
        new_events st (snd (draw_source w i d st))
          = [Read i False, Seek i 0, Read i True,
             Blit i (mon_x (info d) - min_x (box st)) (mon_y (info d) - min_y (box st))
               (mon_width (info d)) (mon_height (info d))
               (int (frame_width (cap d))) (int (frame_height (cap d)))
               (cvtColor (hd (frames (cap d))))
               (create_bmi_header (int (frame_width (cap d))) (int (frame_height (cap d))))]
        \<and> pos (fst (draw_source w i d st)) = 1
        \<and> frames (fst (draw_source w i d st)) = frames (cap d))
   \<and> (read_frame (cap d) = None
        \<longleftrightarrow> fst (cap_read (cap d)) = None
            \<and> (faulty (snd (cap_read (cap d))) \<or> frames (cap d) = []))
   \<and> (read_frame (cap d) = None \<longrightarrow>
         new_events st (snd (draw_source w i d st)) = [Read i False, Seek i 0, Read i False]
         \<and> surface (snd (draw_source w i d st)) = surface st)
   \<and> map fst (caps (snd (tick w k st))) = map fst (caps st)
   \<and> ReleaseCap i \<notin> set (new_events st (snd (tick w k st)))
   \<and> ((i, d) \<in> set (caps st) \<and> fst (tick w k st) = Normal \<longrightarrow>
         playback_loop w k (Suc (Suc n)) st
           = playback_loop w (Suc k) (Suc n) (snd (tick w k st))
         \<and> i \<in> fst ` set (caps (snd (tick w k st)))
         \<and> (Read i True
               \<in> set (new_events (snd (tick w k st))
                       (snd (playback_loop w (Suc k) (Suc n) (snd (tick w k st)))))
             \<or> Read i False
               \<in> set (new_events (snd (tick w k st))
                       (snd (playback_loop w (Suc k) (Suc n) (snd (tick w k st)))))))"
proof -
  have a: "fst (cap_read (cap d)) = None" if "length (frames (cap d)) \<le> pos (cap d)"
    using that by (simp add: cap_read_none)
  note b = draw_source_retry [where d = d and st = st and w = w and i = i]
  note c = read_frame_none [of "cap d"]
  note e = draw_source_none [where d = d and st = st and w = w and i = i]
  note f = tick_keys [where w = w and k = k and st = st]
  note g = tick_no_release [where i = i and st = st and w = w and k = k]
  note h = next_tick_reads(1) [where i = i and d = d and st = st and w = w and k = k and n = n]
    next_tick_reads(2) [where i = i and d = d and st = st and w = w and k = k]
    next_tick_reads(3) [where i = i and d = d and st = st and w = w and k = k and n = n]
  show ?thesis
    apply (intro conjI impI)
    subgoal using a by simp
    subgoal using b(1) by simp
    subgoal using b(2) by simp
    subgoal using b(3) by simp
    subgoal using c by simp
    subgoal using e(2) by simp
    subgoal using e(1) by simp
    subgoal using f by simp
    subgoal using g by simp
    subgoal using h(1) by simp
    subgoal using h(2) by simp
    subgoal using h(3) by simp
    done
qed

theorem loop_restart_witness:
  "length (frames (cap (example_source (example_capture\<lparr>pos := 2\<rparr>))))
     \<le> pos (cap (example_source (example_capture\<lparr>pos := 2\<rparr>)))
   \<and> fst (cap_read (cap (example_source (example_capture\<lparr>pos := 2\<rparr>)))) = None
   \<and> frames (cap (example_source (example_capture\<lparr>pos := 2\<rparr>))) \<noteq> []
   \<and> \<not> faulty (snd (cap_read (cap (example_source (example_capture\<lparr>pos := 2\<rparr>)))))
   \<and> new_events example_state
        (snd (draw_source example_world ''m1'' (example_source (example_capture\<lparr>pos := 2\<rparr>))
                example_state))
       = [Read ''m1'' False, Seek ''m1'' 0, Read ''m1'' True,
          Blit ''m1'' 0 0 4 2 1 1 [(1, 1, 1, 255)] [40, 1, - 1, 1, 32, 0, 4, 0, 0, 0, 0]]
   \<and> length (frames (cap (example_source (example_capture\<lparr>pos := 2, faults := [False, True]\<rparr>))))
       = 2
   \<and> read_frame (cap (example_source (example_capture\<lparr>pos := 2, faults := [False, True]\<rparr>)))
       = None
   \<and> new_events
        (example_state\<lparr>caps :=
           [(''m1'', example_source (example_capture\<lparr>pos := 2, faults := [False, True]\<rparr>))]\<rparr>)
        (snd (draw_source example_world ''m1''
                (example_source (example_capture\<lparr>pos := 2, faults := [False, True]\<rparr>))
                (example_state\<lparr>caps :=
                   [(''m1'',
                     example_source (example_capture\<lparr>pos := 2, faults := [False, True]\<rparr>))]\<rparr>)))
       = [Read ''m1'' False, Seek ''m1'' 0, Read ''m1'' False]
   \<and> (''m1'', example_source (example_capture\<lparr>pos := 2, faults := [False, True]\<rparr>))
        \<in> set (caps (example_state\<lparr>caps :=
             [(''m1'', example_source (example_capture\<lparr>pos := 2, faults := [False, True]\<rparr>))]\<rparr>))
   \<and> fst (tick example_world 0 (example_state\<lparr>caps :=
          [(''m1'', example_source (example_capture\<lparr>pos := 2, faults := [False, True]\<rparr>))]\<rparr>))
       = Normal
   \<and> playback_loop example_world 0 (Suc (Suc 0)) (example_state\<lparr>caps :=
          [(''m1'', example_source (example_capture\<lparr>pos := 2, faults := [False, True]\<rparr>))]\<rparr>)
       = playback_loop example_world (Suc 0) (Suc 0)
           (snd (tick example_world 0 (example_state\<lparr>caps :=
              [(''m1'',
                example_source (example_capture\<lparr>pos := 2, faults := [False, True]\<rparr>))]\<rparr>)))
   \<and> (Read ''m1'' True
         \<in> set (new_events
                 (snd (tick example_world 0 (example_state\<lparr>caps :=
                    [(''m1'',
                      example_source (example_capture\<lparr>pos := 2, faults := [False, True]\<rparr>))]\<rparr>)))
                 (snd (playback_loop example_world (Suc 0) (Suc 0)
                    (snd (tick example_world 0 (example_state\<lparr>caps :=
                       [(''m1'',
                         example_source
                           (example_capture\<lparr>pos := 2, faults := [False, True]\<rparr>))]\<rparr>))))))
       \<or> Read ''m1'' False
         \<in> set (new_events
                 (snd (tick example_world 0 (example_state\<lparr>caps :=
                    [(''m1'',
                      example_source (example_capture\<lparr>pos := 2, faults := [False, True]\<rparr>))]\<rparr>)))
                 (snd (playback_loop example_world (Suc 0) (Suc 0)
                    (snd (tick example_world 0 (example_state\<lparr>caps :=
                       [(''m1'',
                         example_source
                           (example_capture\<lparr>pos := 2, faults := [False, True]\<rparr>))]\<rparr>)))))))"
proof -
  let ?d1 = "example_source (example_capture\<lparr>pos := 2\<rparr>)"
  let ?d2 = "example_source (example_capture\<lparr>pos := 2, faults := [False, True]\<rparr>)"
  let ?st = "example_state\<lparr>caps := [(''m1'', ?d2)]\<rparr>"
  have h1: "length (frames (cap ?d1)) \<le> pos (cap ?d1)" "frames (cap ?d1) \<noteq> []"
    "\<not> faulty (snd (cap_read (cap ?d1)))"
    by (simp_all add: example_source_def example_capture_def faulty_def)
  have h2: "read_frame (cap ?d2) = None"
    by (simp add: example_source_def example_capture_def read_frame_def cap_read_def
        cap_set_pos_frames_def faulty_def Let_def)
  have h3: "(''m1'', ?d2) \<in> set (caps ?st)"
    by simp
  have h4: "fst (tick example_world 0 ?st) = Normal"
    by code_simp
  have h5: "length (frames (cap ?d2)) = 2"
    by (simp add: example_source_def example_capture_def)
  note t1 = loop_restart [where d = ?d1 and st = example_state and w = example_world
      and i = "''m1''"]
  from t1 h1(1) have r: "fst (cap_read (cap ?d1)) = None"
    by blast
  from t1 r h1(2,3)
  have "new_events example_state (snd (draw_source example_world ''m1'' ?d1 example_state))
          = [Read ''m1'' False, Seek ''m1'' 0, Read ''m1'' True,
             Blit ''m1'' (mon_x (info ?d1) - min_x (box example_state))
               (mon_y (info ?d1) - min_y (box example_state))
               (mon_width (info ?d1)) (mon_height (info ?d1))
               (int (frame_width (cap ?d1))) (int (frame_height (cap ?d1)))
               (cvtColor (hd (frames (cap ?d1))))
               (create_bmi_header (int (frame_width (cap ?d1))) (int (frame_height (cap ?d1))))]"
    by blast
  then have a: "new_events example_state (snd (draw_source example_world ''m1'' ?d1 example_state))
             = [Read ''m1'' False, Seek ''m1'' 0, Read ''m1'' True,
                Blit ''m1'' 0 0 4 2 1 1 [(1, 1, 1, 255)] [40, 1, - 1, 1, 32, 0, 4, 0, 0, 0, 0]]"
    by (simp add: example_source_def example_capture_def example_monitor_def example_state_def
        init_def cvtColor_def create_bmi_header_def)
  note t2 = loop_restart [where d = ?d2 and st = ?st and w = example_world and i = "''m1''"
      and k = 0 and n = 0]
  from t2 h2
  have b: "new_events ?st (snd (draw_source example_world ''m1'' ?d2 ?st))
             = [Read ''m1'' False, Seek ''m1'' 0, Read ''m1'' False]"
    by blast
  from t2 h3 h4
  have c: "playback_loop example_world 0 (Suc (Suc 0)) ?st
             = playback_loop example_world (Suc 0) (Suc 0) (snd (tick example_world 0 ?st))"
    by blast
  from t2 h3 h4
  have e: "Read ''m1'' True
             \<in> set (new_events (snd (tick example_world 0 ?st))
                     (snd (playback_loop example_world (Suc 0) (Suc 0)
                             (snd (tick example_world 0 ?st)))))
           \<or> Read ''m1'' False
             \<in> set (new_events (snd (tick example_world 0 ?st))
                     (snd (playback_loop example_world (Suc 0) (Suc 0)
                             (snd (tick example_world 0 ?st)))))"
    by blast
  from h1 r a h5 h2 b h3 h4 c e show ?thesis
    by blast
qed

lemma draw_sources_append:
  "snd (draw_sources w (xs @ ys) st) = snd (draw_sources w ys (snd (draw_sources w xs st)))"
proof (induction xs arbitrary: st)
  case Nil
  show ?case by simp
next
  case (Cons a xs)
  obtain i d where a: "a = (i, d)" by (cases a)
  show ?case
    unfolding a append_Cons snd_draw_sources_Cons by (rule Cons.IH)
qed

lemma tick_drawn:
  assumes "caps st = before @ (i, d) # after"
    and "read_frame (cap d) = Some (f, c')"
    and "dest_rect (box st) (info d) (px, py)"
    and "list_all (\<lambda>(j, e). \<not> dest_rect (box st) (info e) (px, py)) after"
  shows "surface (snd (tick w k st)) (px, py)
           = stretch w (cvtColor f) (int (frame_width c')) (int (frame_height c'))
               (mon_width (info d)) (mon_height (info d))
               (px - (mon_x (info d) - min_x (box st)), py - (mon_y (info d) - min_y (box st)))"
proof -
  let ?s1 = "snd (draw_sources w before (clear st))"
  let ?s2 = "snd (draw_source w i d ?s1)"
  have b1: "box ?s1 = box st" by simp
  have b2: "box ?s2 = box st" by simp
  have "surface (snd (tick w k st)) (px, py) = surface (snd (draw_sources w after ?s2)) (px, py)"
    by (simp only: tick_surface assms(1) draw_sources_append snd_draw_sources_Cons)
  also have "\<dots> = surface ?s2 (px, py)"
    using b2 assms(4) by (rule draw_sources_outside)
  also have "\<dots> = stretch w (cvtColor f) (int (frame_width c')) (int (frame_height c'))
               (mon_width (info d)) (mon_height (info d))
               (px - (mon_x (info d) - min_x (box st)), py - (mon_y (info d) - min_y (box st)))"
    using assms(3) by (simp add: draw_source_some(2) [OF assms(2)])
  finally show ?thesis .
qed

lemma draw_source_blits:
  assumes "read_frame (cap d) = Some (f, c')"
  shows "Blit i (mon_x (info d) - min_x (box st)) (mon_y (info d) - min_y (box st))
           (mon_width (info d)) (mon_height (info d))
           (int (frame_width c')) (int (frame_height c')) (cvtColor f)
           (create_bmi_header (int (frame_width c')) (int (frame_height c')))
         \<in> set (new_events st (snd (draw_source w i d st)))"
  by (simp add: read_frame_draw_source assms blit_trace new_events_def)

lemma draw_sources_blits:
  assumes "(i, d) \<in> set cs" and "read_frame (cap d) = Some (f, c')" and "box st = b"
  shows "Blit i (mon_x (info d) - min_x b) (mon_y (info d) - min_y b)
           (mon_width (info d)) (mon_height (info d))
           (int (frame_width c')) (int (frame_height c')) (cvtColor f)
           (create_bmi_header (int (frame_width c')) (int (frame_height c')))
         \<in> set (new_events st (snd (draw_sources w cs st)))"
  using assms(1,3)
proof (induction cs arbitrary: st)
  case Nil
  then show ?case by simp
next
  case (Cons a cs)
  obtain j e where a: "a = (j, e)" by (cases a)
  let ?s1 = "snd (draw_source w j e st)"
  have split: "new_events st (snd (draw_sources w (a # cs) st))
                 = new_events st ?s1 @ new_events ?s1 (snd (draw_sources w cs ?s1))"
    unfolding a snd_draw_sources_Cons
    using draw_source_draws draw_sources_draws by (rule new_events_trans)
  show ?case
  proof (cases "(i, d) = (j, e)")
    case True
    with draw_source_blits [OF assms(2), of j st w] Cons.prems(2) show ?thesis
      by (simp add: split)
  next
    case False
    with Cons.prems have m: "(i, d) \<in> set cs" by (auto simp: a)
    have "box ?s1 = b" using Cons.prems(2) by simp
    from Cons.IH [OF m this] show ?thesis
      by (simp add: split)
  qed
qed

lemma tick_blits:
  assumes "(i, d) \<in> set (caps st)" and "read_frame (cap d) = Some (f, c')"
  shows "Blit i (mon_x (info d) - min_x (box st)) (mon_y (info d) - min_y (box st))
           (mon_width (info d)) (mon_height (info d))
           (int (frame_width c')) (int (frame_height c')) (cvtColor f)
           (create_bmi_header (int (frame_width c')) (int (frame_height c')))
         \<in> set (new_events st (snd (tick w k st)))"
proof -
  have "box (clear st) = box st" by simp
  from draw_sources_blits [OF assms this, of w] show ?thesis
    by (simp add: tick_new_events tick_draw_events del: draw_fields(4))
qed


text \<open>
  C9. When the read (or its retry) of a source yields a frame, the frame is converted
  to four channels and handed to \<^verbatim>\<open>StretchDIBits\<close> with the destination
  rectangle at \<open>(monitor.x - min_x, monitor.y - min_y)\<close> of the monitor's full width
  and height, and with the width and height the capture reports as the size of the
  source image: inside the rectangle the surface then holds the converted frame
  resampled to the monitor's size, outside it the surface is as it was. The rectangle
  depends on the monitor and the origin offset only, not on the size of the frame. In
  a tick, every source of the table whose read yields a frame gets that call; a pixel
  of its rectangle that no later source of the table draws over holds the resampled
  frame when the tick ends, and a pixel of the composition surface that lies in no
  source's rectangle is black, the colour of the clear. \<^verbatim>\<open>StretchDIBits\<close> is taken
  to succeed.
\<close>

theorem blit_destination:
  assumes "read_frame (cap d) = Some (f, c')"
  shows "surface (snd (draw_source w i d st)) (px, py)
           = (if dest_rect (box st) (info d) (px, py)
              then stretch w (cvtColor f) (int (frame_width c')) (int (frame_height c'))
                     (mon_width (info d)) (mon_height (info d))
                     (px - (mon_x (info d) - min_x (box st)),
                      py - (mon_y (info d) - min_y (box st)))
              else surface st (px, py))
         \<and> last (trace (snd (draw_source w i d st)))
             = Blit i (mon_x (info d) - min_x (box st)) (mon_y (info d) - min_y (box st))
                 (mon_width (info d)) (mon_height (info d))
                 (int (frame_width c')) (int (frame_height c')) (cvtColor f)
                 (create_bmi_header (int (frame_width c')) (int (frame_height c')))
         \<and> frame_width c' = frame_width (cap d) \<and> frame_height c' = frame_height (cap d)
         \<and> ((i, d) \<in> set (caps st) \<longrightarrow>
               Blit i (mon_x (info d) - min_x (box st)) (mon_y (info d) - min_y (box st))
                 (mon_width (info d)) (mon_height (info d))
                 (int (frame_width c')) (int (frame_height c')) (cvtColor f)
                 (create_bmi_header (int (frame_width c')) (int (frame_height c')))
               \<in> set (new_events st (snd (tick w k st))))
         \<and> (caps st = before @ (i, d) # after \<and> dest_rect (box st) (info d) (px, py)
              \<and> list_all (\<lambda>(j, e). \<not> dest_rect (box st) (info e) (px, py)) after
              \<longrightarrow> surface (snd (tick w k st)) (px, py)
                    = stretch w (cvtColor f) (int (frame_width c')) (int (frame_height c'))
                        (mon_width (info d)) (mon_height (info d))
                        (px - (mon_x (info d) - min_x (box st)),
                         py - (mon_y (info d) - min_y (box st))))
         \<and> (0 \<le> px \<and> px < total_width (box st) \<and> 0 \<le> py \<and> py < total_height (box st)
              \<and> list_all (\<lambda>(j, e). \<not> dest_rect (box st) (info e) (px, py)) (caps st)
              \<longrightarrow> surface (snd (tick w k st)) (px, py) = black)"
proof -
  have o: "surface (snd (tick w k st)) (px, py) = black"
    if "0 \<le> px" "px < total_width (box st)" "0 \<le> py" "py < total_height (box st)"
      "list_all (\<lambda>(j, e). \<not> dest_rect (box st) (info e) (px, py)) (caps st)"
  proof -
    have "box (clear st) = box st" by simp
    from draw_sources_outside [OF this that(5), of w]
    show ?thesis using that(1-4) by (simp add: tick_surface clear_surface)
  qed
  have c: "fst (draw_source w i d st) = c'"
    by (rule draw_source_some(1) [OF assms])
  have g: "frame_width c' = frame_width (cap d)" "frame_height c' = frame_height (cap d)"
    using assms
    by (auto simp: read_frame_def cap_read_def cap_set_pos_frames_def Let_def
        split: prod.splits option.splits if_splits)
  note a = draw_source_some(2,3) [OF assms, of w i st]
  note b = tick_blits [OF _ assms, of i st w k]
  note t = tick_drawn [OF _ assms, of st before i after px py w k]
  show ?thesis
    apply (intro conjI impI)
    subgoal using a(1) by simp
    subgoal using a(2) by simp
    subgoal using g(1) by simp
    subgoal using g(2) by simp
    subgoal using b by simp
    subgoal using t by simp
    subgoal using o by simp
    done
qed

theorem blit_destination_witness:
  "read_frame (cap (example_source example_capture))
     = Some ([(1, 1, 1)], example_capture\<lparr>pos := 1\<rparr>)
   \<and> (''m1'', example_source example_capture)
        \<in> set (caps (example_state\<lparr>caps := [(''m1'', example_source example_capture)],
                        box := \<lparr> min_x = 0, min_y = 0, total_width = 8, total_height = 2 \<rparr>\<rparr>))
   \<and> dest_rect \<lparr> min_x = 0, min_y = 0, total_width = 8, total_height = 2 \<rparr>
        (info (example_source example_capture)) (3, 1)
   \<and> list_all (\<lambda>(j, e). \<not> dest_rect \<lparr> min_x = 0, min_y = 0, total_width = 8, total_height = 2 \<rparr>
                            (info e) (6, 1)) [(''m1'', example_source example_capture)]
   \<and> surface (snd (draw_source example_world ''m1'' (example_source example_capture)
        (example_state\<lparr>caps := [(''m1'', example_source example_capture)],
           box := \<lparr> min_x = 0, min_y = 0, total_width = 8, total_height = 2 \<rparr>\<rparr>))) (3, 1)
       = (1, 1, 1, 255)
   \<and> surface (snd (draw_source example_world ''m1'' (example_source example_capture)
        (example_state\<lparr>caps := [(''m1'', example_source example_capture)],
           box := \<lparr> min_x = 0, min_y = 0, total_width = 8, total_height = 2 \<rparr>\<rparr>))) (6, 1)
       = (9, 9, 9, 9)
   \<and> Blit ''m1'' 0 0 4 2 1 1 [(1, 1, 1, 255)] [40, 1, - 1, 1, 32, 0, 4, 0, 0, 0, 0]
        \<in> set (new_events
             (example_state\<lparr>caps := [(''m1'', example_source example_capture)],
                box := \<lparr> min_x = 0, min_y = 0, total_width = 8, total_height = 2 \<rparr>\<rparr>)
             (snd (tick example_world 0
                (example_state\<lparr>caps := [(''m1'', example_source example_capture)],
                   box := \<lparr> min_x = 0, min_y = 0, total_width = 8, total_height = 2 \<rparr>\<rparr>))))
   \<and> surface (snd (tick example_world 0
        (example_state\<lparr>caps := [(''m1'', example_source example_capture)],
           box := \<lparr> min_x = 0, min_y = 0, total_width = 8, total_height = 2 \<rparr>\<rparr>))) (3, 1)
       = (1, 1, 1, 255)
   \<and> surface (snd (tick example_world 0
        (example_state\<lparr>caps := [(''m1'', example_source example_capture)],
           box := \<lparr> min_x = 0, min_y = 0, total_width = 8, total_height = 2 \<rparr>\<rparr>))) (6, 1)
       = black"
proof -
  let ?b = "\<lparr> min_x = 0, min_y = 0, total_width = 8, total_height = 2 \<rparr>"
  let ?d = "example_source example_capture"
  let ?st = "example_state\<lparr>caps := [(''m1'', ?d)], box := ?b\<rparr>"
  have h: "read_frame (cap ?d) = Some ([(1, 1, 1)], example_capture\<lparr>pos := 1\<rparr>)"
    by (simp add: example_source_def example_capture_def read_frame_def cap_read_def
        faulty_def Let_def)
  have m: "info ?d = example_monitor"
    by (simp add: example_source_def)
  have k: "(''m1'', ?d) \<in> set (caps ?st)" "caps ?st = [] @ (''m1'', ?d) # []"
    by simp_all
  have r: "dest_rect ?b (info ?d) (3, 1)"
    by (simp add: m example_monitor_def dest_rect_def)
  have l: "list_all (\<lambda>(j, e). \<not> dest_rect ?b (info e) (6, 1)) [(''m1'', ?d)]"
    by (simp add: m example_monitor_def dest_rect_def)
  have s: "surface ?st = (\<lambda>_. (9, 9, 9, 9))" "box ?st = ?b" "caps ?st = [(''m1'', ?d)]"
    by (simp_all add: example_state_def init_def example_world_def)
  have e: "stretch example_world bits sw sh dw dh (i, j)
             = bits ! nat (j * sh div dh * sw + i * sw div dw)" for bits sw sh dw dh i j
    by (simp add: example_world_def)
  have f: "frame_width example_capture = 1" "frame_height example_capture = 1"
    by (simp_all add: example_capture_def)
  note t3 = blit_destination [OF h, where w = example_world and i = "''m1''" and st = ?st
      and px = 3 and py = 1 and k = 0 and before = "[]" and after = "[]"]
  note t6 = blit_destination [OF h, where w = example_world and i = "''m1''" and st = ?st
      and px = 6 and py = 1 and k = 0 and before = "[]" and after = "[]"]
  from t3 [THEN conjunct1]
  have a: "surface (snd (draw_source example_world ''m1'' ?d ?st)) (3, 1) = (1, 1, 1, 255)"
    by (simp add: s m e f cvtColor_def dest_rect_def example_monitor_def)
  from t3 [THEN conjunct2, THEN conjunct2, THEN conjunct2, THEN conjunct2, THEN conjunct1] k(1)
  have v: "Blit ''m1'' 0 0 4 2 1 1 [(1, 1, 1, 255)] [40, 1, - 1, 1, 32, 0, 4, 0, 0, 0, 0]
             \<in> set (new_events ?st (snd (tick example_world 0 ?st)))"
    by (simp add: s m f cvtColor_def example_monitor_def create_bmi_header_def)
  from t3 [THEN conjunct2, THEN conjunct2, THEN conjunct2, THEN conjunct2, THEN conjunct2,
      THEN conjunct1] r
  have a': "surface (snd (tick example_world 0 ?st)) (3, 1) = (1, 1, 1, 255)"
    by (simp add: s m e f cvtColor_def example_monitor_def)
  from t6 [THEN conjunct1]
  have b: "surface (snd (draw_source example_world ''m1'' ?d ?st)) (6, 1) = (9, 9, 9, 9)"
    by (simp add: s m dest_rect_def example_monitor_def)
  from t6 [THEN conjunct2, THEN conjunct2, THEN conjunct2, THEN conjunct2, THEN conjunct2,
      THEN conjunct2] l
  have c: "surface (snd (tick example_world 0 ?st)) (6, 1) = black"
    by (simp add: s m dest_rect_def example_monitor_def)
  from h k(1) r l a b v a' c show ?thesis
    unfolding s(2) by blast
qed

text \<open>
  C10. Every tick starts by clearing the full composition surface
  \<open>(0, 0, total_width, total_height)\<close> to black, then reads and draws its sources,
  and then calls the present of the full surface; unless the present raises, the
  worker window then shows the composition surface. In a tick in which the read and the retry of every source fail, the
  surface is entirely black when it is presented, so the window is black as well.
\<close>

theorem tick_presents:
  assumes "0 \<le> px" "px < total_width (box st)" "0 \<le> py" "py < total_height (box st)"
  shows "take 1 (new_events st (snd (tick w k st)))
           = [Clear 0 0 (total_width (box st)) (total_height (box st))]
         \<and> Present (total_width (box st)) (total_height (box st)) (\<not> BitBlt_raises w k)
             \<in> set (new_events st (snd (tick w k st)))
         \<and> surface (clear st) (px, py) = black
         \<and> (\<not> BitBlt_raises w k \<longrightarrow>
               desktop (snd (tick w k st)) (px, py) = surface (snd (tick w k st)) (px, py))
         \<and> (list_all (\<lambda>(i, d). read_frame (cap d) = None) (caps st) \<longrightarrow>
               surface (snd (tick w k st)) (px, py) = black
               \<and> (\<not> BitBlt_raises w k \<longrightarrow> desktop (snd (tick w k st)) (px, py) = black))
         \<and> new_events st (snd (tick w k st))
             = Clear 0 0 (total_width (box st)) (total_height (box st))
               # new_events (clear st) (draw w (clear st))
               @ Present (total_width (box st)) (total_height (box st)) (\<not> BitBlt_raises w k)
               # (if BitBlt_raises w k then [Print] else [])
               @ pace_events w k (fps_var (draw w (clear st)))
         \<and> list_all draw_event (new_events (clear st) (draw w (clear st)))"
proof -
  have a: "take 1 (new_events st (snd (tick w k st)))
             = [Clear 0 0 (total_width (box st)) (total_height (box st))]"
    by (simp add: tick_new_events del: draw_fields(4))
  have b: "Present (total_width (box st)) (total_height (box st)) (\<not> BitBlt_raises w k)
             \<in> set (new_events st (snd (tick w k st)))"
    by (simp add: tick_new_events del: draw_fields(4))
  have c: "surface (clear st) (px, py) = black"
    using assms by (simp add: clear_surface)
  have d: "desktop (snd (tick w k st)) (px, py) = surface (snd (tick w k st)) (px, py)"
    if "\<not> BitBlt_raises w k"
    using assms that by (rule tick_desktop)
  have e: "surface (snd (tick w k st)) (px, py) = black"
    if "list_all (\<lambda>(i, d). read_frame (cap d) = None) (caps st)"
    using c by (simp add: tick_surface draw_sources_none [OF that])
  have f: "new_events st (snd (tick w k st))
             = Clear 0 0 (total_width (box st)) (total_height (box st))
               # new_events (clear st) (draw w (clear st))
               @ Present (total_width (box st)) (total_height (box st)) (\<not> BitBlt_raises w k)
               # (if BitBlt_raises w k then [Print] else [])
               @ pace_events w k (fps_var (draw w (clear st)))"
    by (rule tick_new_events)
  have g: "list_all draw_event (new_events (clear st) (draw w (clear st)))"
    using draw_draws by (rule grows_new_events)
  show ?thesis
    apply (intro conjI impI)
    subgoal using a by simp
    subgoal using b by simp
    subgoal using c by simp
    subgoal using d by simp
    subgoal using e by simp
    subgoal using d e by simp
    subgoal using f by simp
    subgoal using g by simp
    done
qed

theorem tick_presents_witness:
  "(0::int) \<le> 1
   \<and> 1 < total_width (box (example_state\<lparr>caps :=
            [(''m1'', example_source (example_capture\<lparr>faults := [True, True]\<rparr>))]\<rparr>))
   \<and> 1 < total_height (box (example_state\<lparr>caps :=
            [(''m1'', example_source (example_capture\<lparr>faults := [True, True]\<rparr>))]\<rparr>))
   \<and> \<not> BitBlt_raises example_world 0
   \<and> list_all (\<lambda>(i, d). read_frame (cap d) = None)
        (caps (example_state\<lparr>caps :=
           [(''m1'', example_source (example_capture\<lparr>faults := [True, True]\<rparr>))]\<rparr>))
   \<and> take 1 (new_events
        (example_state\<lparr>caps :=
           [(''m1'', example_source (example_capture\<lparr>faults := [True, True]\<rparr>))]\<rparr>)
        (snd (tick example_world 0
          (example_state\<lparr>caps :=
             [(''m1'', example_source (example_capture\<lparr>faults := [True, True]\<rparr>))]\<rparr>))))
       = [Clear 0 0 4 2]
   \<and> desktop (snd (tick example_world 0
        (example_state\<lparr>caps :=
           [(''m1'', example_source (example_capture\<lparr>faults := [True, True]\<rparr>))]\<rparr>)))
        (1, 1) = black"
proof -
  let ?st = "example_state\<lparr>caps :=
    [(''m1'', example_source (example_capture\<lparr>faults := [True, True]\<rparr>))]\<rparr>"
  have b: "box ?st = \<lparr> min_x = 0, min_y = 0, total_width = 4, total_height = 2 \<rparr>"
    by (simp add: example_state_def)
  have h: "(0::int) \<le> 1" "1 < total_width (box ?st)" "(0::int) \<le> 1" "1 < total_height (box ?st)"
    by (simp_all add: b)
  have r: "\<not> BitBlt_raises example_world 0"
    by (simp add: example_world_def)
  have l: "list_all (\<lambda>(i, d). read_frame (cap d) = None) (caps ?st)"
    by (simp add: example_source_def example_capture_def read_frame_def cap_read_def
        cap_set_pos_frames_def faulty_def Let_def)
  note t = tick_presents [OF h, where w = example_world and k = 0]
  from t [THEN conjunct1]
  have c: "take 1 (new_events ?st (snd (tick example_world 0 ?st))) = [Clear 0 0 4 2]"
    by (simp add: b)
  from t [THEN conjunct2, THEN conjunct2, THEN conjunct2, THEN conjunct2, THEN conjunct1] r l
  have d: "desktop (snd (tick example_world 0 ?st)) (1, 1) = black"
    by simp
  from h r l c d show ?thesis by blast
qed

end
